theory Spec2Isabelle
  imports Complex_Main "HOL-Library.Sublist" "HOL-Library.Multiset"
begin

section \<open>Effects of \<^verbatim>\<open>app.py\<close>: exceptions, observable events, outcomes\<close>

text \<open>
  The program talks to the network, a headless browser, the file system and an imaging
  library. Each of these calls either returns or raises; what it does is not decided by
  the program, so the model takes the outcome of every external call as an argument and
  computes what the program does with it. Exceptions are values of \<open>exn\<close> (the
  subclasses of Python's \<^verbatim>\<open>Exception\<close>, which is what every \<^verbatim>\<open>except Exception\<close>
  of the source catches). An action yields the list of events it caused, in order, and
  either the exception that left it (\<open>Inl\<close>) or its return value (\<open>Inr\<close>).
\<close>

datatype exn =
    KeyError string
  | IndexError
  | ValueError
  | TypeError
  | RequestException
  | WebDriverException
  | TimeoutException
  | OSError
  | CvError

type_synonym bytes = "nat list"

datatype event =
    HttpGet string
  | ChromeStarted bool
  | DriverQuit bool
  | Makedirs string
  | FileWritten string string bytes
  | ErrorDownloading exn
  | ErrorCapturing exn
  | ErrorProcessingRow nat exn

type_synonym 'a io = "event list \<times> (exn + 'a)"

definition io_return :: "'a \<Rightarrow> 'a io" where
  "io_return x = ([], Inr x)"

definition io_raise :: "exn \<Rightarrow> 'a io" where
  "io_raise e = ([], Inl e)"

definition io_emit :: "event \<Rightarrow> unit io" where
  "io_emit ev = ([ev], Inr ())"

text \<open>Sequencing: the second action runs only when the first returned.\<close>

definition io_bind :: "'a io \<Rightarrow> ('a \<Rightarrow> 'b io) \<Rightarrow> 'b io" where
  "io_bind m f =
     (case m of
        (t, Inl e) \<Rightarrow> (t, Inl e)
      | (t, Inr x) \<Rightarrow> (case f x of (t', r) \<Rightarrow> (t @ t', r)))"

text \<open>\<^verbatim>\<open>try: m  except Exception as e: h(e)\<close>\<close>

definition io_try :: "'a io \<Rightarrow> (exn \<Rightarrow> 'a io) \<Rightarrow> 'a io" where
  "io_try m h =
     (case m of
        (t, Inl e) \<Rightarrow> (case h e of (t', r) \<Rightarrow> (t @ t', r))
      | (t, Inr x) \<Rightarrow> (t, Inr x))"

text \<open>
  \<^verbatim>\<open>try: m  finally: c\<close>: the clean-up runs however \<open>m\<close> ended; an exception of the
  clean-up replaces the outcome of \<open>m\<close>, otherwise the outcome of \<open>m\<close> stands.
\<close>

definition io_finally :: "'a io \<Rightarrow> unit io \<Rightarrow> 'a io" where
  "io_finally m c =
     (case m of (t, r) \<Rightarrow>
        (case c of
           (t', Inl e) \<Rightarrow> (t @ t', Inl e)
         | (t', Inr _) \<Rightarrow> (t @ t', r)))"

text \<open>The outcome of an external call that returns nothing: \<open>None\<close> is a normal return.\<close>

definition io_check :: "exn option \<Rightarrow> unit io" where
  "io_check outcome = (case outcome of None \<Rightarrow> ([], Inr ()) | Some e \<Rightarrow> ([], Inl e))"

text \<open>The outcome of a pure library call that may raise.\<close>

definition io_lift :: "exn + 'a \<Rightarrow> 'a io" where
  "io_lift r = ([], r)"

text \<open>
  Four tasks submitted to a \<^verbatim>\<open>ThreadPoolExecutor\<close> whose \<^verbatim>\<open>with\<close> block is left
  before any result is read: all four run to their end, whatever the others did. Then
  \<^verbatim>\<open>.result()\<close> is called on each in turn, and re-raises the exception of a task that
  raised. The events of the four tasks are listed in submission order (the threads
  interleave them; nothing below depends on that order).
\<close>

definition io_gather4 :: "'a io \<Rightarrow> 'b io \<Rightarrow> 'c io \<Rightarrow> 'd io \<Rightarrow> ('a \<times> 'b \<times> 'c \<times> 'd) io" where
  "io_gather4 m1 m2 m3 m4 =
     (fst m1 @ fst m2 @ fst m3 @ fst m4,
      case snd m1 of Inl e \<Rightarrow> Inl e | Inr a \<Rightarrow>
      (case snd m2 of Inl e \<Rightarrow> Inl e | Inr b \<Rightarrow>
      (case snd m3 of Inl e \<Rightarrow> Inl e | Inr c \<Rightarrow>
      (case snd m4 of Inl e \<Rightarrow> Inl e | Inr d \<Rightarrow> Inr (a, b, c, d)))))"

section \<open>String operations of Python used by the source\<close>

text \<open>\<^verbatim>\<open>sub in s\<close> on strings: \<open>sub\<close> occurs in \<open>s\<close> as a contiguous block.\<close>

fun contains :: "string \<Rightarrow> string \<Rightarrow> bool" where
  "contains sub [] = (sub = [])"
| "contains sub (c # cs) = (prefix sub (c # cs) \<or> contains sub cs)"

text \<open>
  \<^verbatim>\<open>s.split(sep)\<close> for a non-empty separator: the pieces between the occurrences of
  \<open>sep\<close>, found from the left without overlap. \<open>cur\<close> is the piece being read.
\<close>

function split_from :: "string \<Rightarrow> string \<Rightarrow> string \<Rightarrow> string list" where
  "split_from sep cur s =
     (if s = [] then [cur]
      else if sep \<noteq> [] \<and> prefix sep s then cur # split_from sep [] (drop (length sep) s)
      else split_from sep (cur @ [hd s]) (tl s))"
  by pat_completeness auto
termination
  by (relation "measure (\<lambda>(sep, cur, s). length s)") auto

declare split_from.simps [simp del]

definition py_split :: "string \<Rightarrow> string \<Rightarrow> exn + string list" where
  "py_split s sep = (if sep = [] then Inl ValueError else Inr (split_from sep [] s))"

text \<open>\<^verbatim>\<open>xs[i]\<close> for \<open>i \<ge> 0\<close>: IndexError out of range.\<close>

definition item :: "'a list \<Rightarrow> nat \<Rightarrow> exn + 'a" where
  "item xs i = (if i < length xs then Inr (xs ! i) else Inl IndexError)"

section \<open>\<^verbatim>\<open>validate_url\<close>\<close>

text \<open>
  \<^verbatim>\<open>urlparse(url).scheme\<close> belongs to the standard library, not to this repository:
  it is the argument \<open>scheme_of\<close>, which returns the scheme or raises (the library
  rejects some strings with \<^verbatim>\<open>ValueError\<close>). An empty scheme is the falsy one.
\<close>

definition validate_url :: "(string \<Rightarrow> exn + string) \<Rightarrow> string \<Rightarrow> exn + string" where
  "validate_url scheme_of url =
     (case scheme_of url of
        Inl e \<Rightarrow> Inl e
      | Inr scheme \<Rightarrow> Inr (if scheme = [] then ''https://'' @ url else url))"

section \<open>\<^verbatim>\<open>download_image_as_bytes\<close>\<close>

text \<open>
  The first two statements of the \<^verbatim>\<open>try\<close> block: \<open>file_id\<close> is \<open>None\<close> for a link
  without \<^verbatim>\<open>drive.google.com\<close>; \<^verbatim>\<open>split("/d/")[1]\<close> raises IndexError when the
  link has no \<^verbatim>\<open>/d/\<close>; an empty \<open>file_id\<close> is falsy like \<open>None\<close>.
\<close>

definition file_id_of :: "string \<Rightarrow> exn + string option" where
  "file_id_of drive_link =
     (if contains ''drive.google.com'' drive_link then
        (case py_split drive_link ''/d/'' of
           Inl e \<Rightarrow> Inl e
         | Inr parts \<Rightarrow>
             (case item parts 1 of
                Inl e \<Rightarrow> Inl e
              | Inr rest \<Rightarrow>
                  (case py_split rest ''/'' of
                     Inl e \<Rightarrow> Inl e
                   | Inr pieces \<Rightarrow>
                       (case item pieces 0 of
                          Inl e \<Rightarrow> Inl e
                        | Inr fid \<Rightarrow> Inr (Some fid)))))
      else Inr None)"

definition download_url_of :: "string \<Rightarrow> exn + string" where
  "download_url_of drive_link =
     (case file_id_of drive_link of
        Inl e \<Rightarrow> Inl e
      | Inr file_id \<Rightarrow>
          (case file_id of
             Some fid \<Rightarrow>
               if fid \<noteq> [] then Inr (''https://drive.google.com/uc?id='' @ fid @ ''&export=download'')
               else Inr drive_link
           | None \<Rightarrow> Inr drive_link))"

text \<open>
  \<open>get url\<close> is the outcome of \<^verbatim>\<open>requests.get(url, stream=True, timeout=10)\<close>
  followed by \<^verbatim>\<open>raise_for_status()\<close> and reading \<^verbatim>\<open>response.content\<close>. The function
  returns \<open>Some\<close> of the bytes, or \<open>None\<close> after printing the exception.
\<close>

definition download_image_as_bytes :: "(string \<Rightarrow> exn + bytes) \<Rightarrow> string \<Rightarrow> bytes option io" where
  "download_image_as_bytes get drive_link =
     io_try
       (case download_url_of drive_link of
          Inl e \<Rightarrow> io_raise e
        | Inr download_url \<Rightarrow>
            io_bind (io_emit (HttpGet download_url)) (\<lambda>_.
              case get download_url of
                Inl e \<Rightarrow> io_raise e
              | Inr content \<Rightarrow> io_return (Some content)))
       (\<lambda>e. io_bind (io_emit (ErrorDownloading e)) (\<lambda>_. io_return None))"

section \<open>\<^verbatim>\<open>capture_screenshot_as_bytes\<close>\<close>

text \<open>
  What the browser does during one call: whether \<^verbatim>\<open>webdriver.Chrome(...)\<close> starts
  (with the driver manager's install), whether \<^verbatim>\<open>driver.get\<close> and the wait for the
  \<^verbatim>\<open>body\<close> element return, what \<^verbatim>\<open>get_screenshot_as_png\<close> gives, and whether
  \<^verbatim>\<open>driver.quit()\<close> returns.
\<close>

record browser =
  launch :: "exn option"
  navigate :: "exn option"
  wait_body :: "exn option"
  screenshot :: "exn + bytes"
  quit :: "exn option"

text \<open>
  The driver is created before the \<^verbatim>\<open>try\<close>: an exception of the launch leaves the
  function. \<open>ChromeStarted\<close> marks that a browser instance exists, \<open>DriverQuit\<close> that
  \<^verbatim>\<open>driver.quit()\<close> was called.
\<close>

definition capture_screenshot_as_bytes :: "(string \<Rightarrow> bool \<Rightarrow> browser) \<Rightarrow> string \<Rightarrow> bool \<Rightarrow> bytes option io" where
  "capture_screenshot_as_bytes browse url mobile_view =
     (let b = browse url mobile_view in
      io_bind (io_bind (io_check (launch b)) (\<lambda>_. io_emit (ChromeStarted mobile_view))) (\<lambda>_.
        io_finally
          (io_try
             (io_bind (io_check (navigate b)) (\<lambda>_.
              io_bind (io_check (wait_body b)) (\<lambda>_.
              io_bind (io_lift (screenshot b)) (\<lambda>png.
              io_return (Some png)))))
             (\<lambda>e. io_bind (io_emit (ErrorCapturing e)) (\<lambda>_. io_return None)))
          (io_bind (io_emit (DriverQuit mobile_view)) (\<lambda>_. io_check (quit b)))))"

section \<open>\<^verbatim>\<open>compare_images_bytes\<close>\<close>

text \<open>
  The imaging libraries (OpenCV, scikit-image) and Python's \<^verbatim>\<open>round\<close> are arguments:
  \<open>imdecode\<close> returns \<open>None\<close> for bytes it cannot decode, \<open>shape\<close> is (rows, columns),
  \<open>resize\<close> takes (width, height), \<open>ssim\<close> is the structural similarity index. Python's
  floats are read as reals; no theorem below computes with them beyond the constant 0.
\<close>

record 'img imaging =
  imdecode :: "bytes \<Rightarrow> exn + 'img option"
  shape :: "'img \<Rightarrow> nat \<times> nat"
  resize :: "'img \<Rightarrow> nat \<times> nat \<Rightarrow> exn + 'img"
  ssim :: "'img \<Rightarrow> 'img \<Rightarrow> exn + real"
  pyround :: "real \<Rightarrow> nat \<Rightarrow> real"

definition compare_images_bytes :: "'img imaging \<Rightarrow> bytes \<Rightarrow> bytes \<Rightarrow> exn + real" where
  "compare_images_bytes cv img1_bytes img2_bytes =
     (case imdecode cv img1_bytes of Inl e \<Rightarrow> Inl e | Inr img1 \<Rightarrow>
     (case imdecode cv img2_bytes of Inl e \<Rightarrow> Inl e | Inr img2 \<Rightarrow>
     (case img1 of None \<Rightarrow> Inr 0 | Some i1 \<Rightarrow>
     (case img2 of None \<Rightarrow> Inr 0 | Some i2 \<Rightarrow>
     (case resize cv i2 (snd (shape cv i1), fst (shape cv i1)) of Inl e \<Rightarrow> Inl e | Inr img2_resized \<Rightarrow>
     (case ssim cv i1 img2_resized of Inl e \<Rightarrow> Inl e | Inr similarity_index \<Rightarrow>
        Inr (pyround cv (similarity_index * 100) 2)))))))"

section \<open>\<^verbatim>\<open>process_row\<close>\<close>

text \<open>
  Everything outside the program that one row meets. The two reference downloads and the
  two captures are separate calls, so each has its own outcome (\<open>True\<close> is the mobile one).
  \<open>write_file dir name data\<close> is \<^verbatim>\<open>open(os.path.join(dir, name), "wb")\<close> and the write.
\<close>

record 'img world =
  urlparse_scheme :: "string \<Rightarrow> exn + string"
  http_get :: "bool \<Rightarrow> string \<Rightarrow> exn + bytes"
  chrome :: "string \<Rightarrow> bool \<Rightarrow> browser"
  makedirs :: "string \<Rightarrow> exn option"
  write_file :: "string \<Rightarrow> string \<Rightarrow> bytes \<Rightarrow> exn option"
  cv :: "'img imaging"

text \<open>A row of the sheet: a cell for each column name it has. \<^verbatim>\<open>row[col]\<close> raises KeyError.\<close>

type_synonym row = "string \<rightharpoonup> string"

definition field :: "row \<Rightarrow> string \<Rightarrow> string io" where
  "field row col = (case row col of None \<Rightarrow> io_raise (KeyError col) | Some v \<Rightarrow> io_return v)"

text \<open>\<^verbatim>\<open>f"{index}"\<close>: the decimal digits of the index.\<close>

fun str_nat :: "nat \<Rightarrow> string" where
  "str_nat n =
     (if n < 10 then [char_of (48 + n)]
      else str_nat (n div 10) @ [char_of (48 + n mod 10)])"

declare str_nat.simps [simp del]

text \<open>\<^verbatim>\<open>if site: with open(path, "wb") as f: f.write(site.getbuffer())\<close>\<close>

definition save_screenshot :: "'img world \<Rightarrow> string \<Rightarrow> string \<Rightarrow> bytes option \<Rightarrow> unit io" where
  "save_screenshot w dir name site =
     (case site of
        None \<Rightarrow> io_return ()
      | Some png \<Rightarrow>
          io_bind (io_check (write_file w dir name png)) (\<lambda>_. io_emit (FileWritten dir name png)))"

text \<open>\<^verbatim>\<open>compare_images_bytes(ref, site) if ref and site else 0.0\<close>\<close>

definition similarity :: "'img world \<Rightarrow> bytes option \<Rightarrow> bytes option \<Rightarrow> real io" where
  "similarity w ref site =
     (case ref of
        None \<Rightarrow> io_return 0
      | Some r \<Rightarrow>
          (case site of
             None \<Rightarrow> io_return 0
           | Some s \<Rightarrow> io_lift (compare_images_bytes (cv w) r s)))"

text \<open>The body of the \<^verbatim>\<open>try\<close> block of \<^verbatim>\<open>process_row\<close>.\<close>

definition row_steps :: "'img world \<Rightarrow> nat \<Rightarrow> row \<Rightarrow> (real \<times> real) io" where
  "row_steps w index row =
     io_bind (field row ''Mobile Response Link'') (\<lambda>mobile_link.
     io_bind (field row ''Desktop Response Link'') (\<lambda>desktop_link.
     io_bind (field row ''Website URL'') (\<lambda>url.
     io_bind (io_lift (validate_url (urlparse_scheme w) url)) (\<lambda>website_url.
     io_bind (io_gather4
                (download_image_as_bytes (http_get w True) mobile_link)
                (download_image_as_bytes (http_get w False) desktop_link)
                (capture_screenshot_as_bytes (chrome w) website_url True)
                (capture_screenshot_as_bytes (chrome w) website_url False))
       (\<lambda>(mobile_ref, desktop_ref, mobile_site, desktop_site).
     io_bind (io_check (makedirs w ''website_screenshots'')) (\<lambda>_.
     io_bind (io_emit (Makedirs ''website_screenshots'')) (\<lambda>_.
     io_bind (save_screenshot w ''website_screenshots''
                (''mobile_'' @ str_nat index @ ''.png'') mobile_site) (\<lambda>_.
     io_bind (save_screenshot w ''website_screenshots''
                (''desktop_'' @ str_nat index @ ''.png'') desktop_site) (\<lambda>_.
     io_bind (similarity w mobile_ref mobile_site) (\<lambda>mobile_similarity.
     io_bind (similarity w desktop_ref desktop_site) (\<lambda>desktop_similarity.
     io_return (mobile_similarity, desktop_similarity))))))))))))"

text \<open>
  \<^verbatim>\<open>process_row\<close>: the block above, and the handler of \<^verbatim>\<open>except Exception as e\<close>,
  which prints the row's index with the exception and returns \<^verbatim>\<open>0.0, 0.0\<close>.
\<close>

definition process_row :: "'img world \<Rightarrow> nat \<Rightarrow> row \<Rightarrow> (real \<times> real) io" where
  "process_row w index row =
     io_try (row_steps w index row)
       (\<lambda>e. io_bind (io_emit (ErrorProcessingRow index e)) (\<lambda>_. io_return (0, 0)))"

section \<open>The row loop of \<^verbatim>\<open>process_google_sheet\<close>\<close>

text \<open>
  \<^verbatim>\<open>df.iterrows()\<close> of a frame built from the list of records: the rows with their
  positions \<open>0, 1, ...\<close> as index. Each is submitted once; the future of row \<open>index\<close>
  holds what \<open>process_row\<close> did with it, in the world that row met.
\<close>

definition submit_all :: "(nat \<Rightarrow> 'img world) \<Rightarrow> row list \<Rightarrow> (nat \<times> (real \<times> real) io) list" where
  "submit_all worlds rows =
     map (\<lambda>(index, row). (index, process_row (worlds index) index row)) (enumerate 0 rows)"

text \<open>
  The loop over \<^verbatim>\<open>as_completed(futures)\<close>, given the futures in the order they
  completed: a future that returned appends its tuple, one that raised is reported and
  adds nothing.
\<close>

fun collect :: "(nat \<times> (real \<times> real) io) list \<Rightarrow> (nat \<times> real \<times> real) list" where
  "collect [] = []"
| "collect ((index, future) # rest) =
     (case snd future of
        Inr (mobile_similarity, desktop_similarity) \<Rightarrow>
          (index, mobile_similarity, desktop_similarity) # collect rest
      | Inl e \<Rightarrow> collect rest)"

text \<open>
  \<open>completion\<close> lists the positions of the futures in the order \<^verbatim>\<open>as_completed\<close>
  yields them.
\<close>

definition gather_results :: "(nat \<Rightarrow> 'img world) \<Rightarrow> row list \<Rightarrow> nat list \<Rightarrow> (nat \<times> real \<times> real) list" where
  "gather_results worlds rows completion =
     collect (map (\<lambda>k. submit_all worlds rows ! k) completion)"

text \<open>
  The frame \<^verbatim>\<open>df\<close>: the cell stored at (index, column), for the cells there are. A
  cell read from the sheet is a string or a number; the result columns may already be in
  the sheet (a second run over the same sheet reads them back).
\<close>

datatype cell = CStr string | CInt int | CFloat real

type_synonym frame = "nat \<times> string \<rightharpoonup> cell"

text \<open>
  \<^verbatim>\<open>df.at[index, column] = value\<close> for a float value. The frame library decides from
  the column as it is in the frame whether the value can be stored there (a missing column
  is created; a column of another type may refuse a float): that decision is the argument
  \<open>accepts\<close>. A refused assignment raises \<^verbatim>\<open>TypeError\<close> and stores nothing.
\<close>

definition df_at_set ::
  "(frame \<Rightarrow> string \<Rightarrow> real \<Rightarrow> bool) \<Rightarrow> frame \<Rightarrow> nat \<Rightarrow> string \<Rightarrow> real \<Rightarrow> exn + frame" where
  "df_at_set accepts df index col v =
     (if accepts df col v then Inr (df((index, col) \<mapsto> CFloat v)) else Inl TypeError)"

text \<open>
  The loop over \<open>results\<close> that assigns the two cells of each tuple. It has no handler:
  the first assignment that raises ends the loop, and with it the run.
\<close>

fun update_frame ::
  "(frame \<Rightarrow> string \<Rightarrow> real \<Rightarrow> bool) \<Rightarrow> (nat \<times> real \<times> real) list \<Rightarrow> frame \<Rightarrow> exn + frame" where
  "update_frame accepts [] df = Inr df"
| "update_frame accepts ((index, mobile_similarity, desktop_similarity) # rest) df =
     (case df_at_set accepts df index ''Mobile Match %'' mobile_similarity of
        Inl e \<Rightarrow> Inl e
      | Inr df1 \<Rightarrow>
          (case df_at_set accepts df1 index ''Desktop Match %'' desktop_similarity of
             Inl e \<Rightarrow> Inl e
           | Inr df2 \<Rightarrow> update_frame accepts rest df2))"

definition run ::
  "(frame \<Rightarrow> string \<Rightarrow> real \<Rightarrow> bool) \<Rightarrow> (nat \<Rightarrow> 'img world) \<Rightarrow> row list \<Rightarrow> nat list \<Rightarrow> frame \<Rightarrow>
     exn + frame" where
  "run accepts worlds rows completion df =
     update_frame accepts (gather_results worlds rows completion) df"

section \<open>A small world for concrete runs\<close>

text \<open>
  Stand-ins for the outside world, used to run the definitions on concrete rows: a scheme
  reader that takes what precedes \<^verbatim>\<open>://\<close> and rejects a string with an opening
  bracket and no closing one (as the URL parser rejects \<^verbatim>\<open>http://[::1\<close>), images that
  are their own bytes and decode when they start with 137 (the first byte of a PNG), a
  decoder that raises on an empty buffer, a similarity of 1 for equal images and 7/8
  otherwise, and a browser, network and disk where every call succeeds.
\<close>

definition demo_scheme :: "string \<Rightarrow> exn + string" where
  "demo_scheme url =
     (if contains ''['' url \<and> \<not> contains '']'' url then Inl ValueError
      else if contains ''://'' url then Inr (takeWhile (\<lambda>c. c \<noteq> CHR '':'') url)
      else Inr [])"

definition demo_cv :: "bytes imaging" where
  "demo_cv =
     \<lparr> imdecode = (\<lambda>b. if b = [] then Inl CvError
                       else Inr (if take 1 b = [137] then Some b else None)),
       shape = (\<lambda>i. (1, length i)),
       resize = (\<lambda>i d. Inr i),
       ssim = (\<lambda>a b. Inr (if a = b then 1 else 7 / 8)),
       pyround = (\<lambda>x n. x) \<rparr>"

definition demo_browser :: browser where
  "demo_browser =
     \<lparr> launch = None, navigate = None, wait_body = None,
       screenshot = Inr [137, 80, 78, 71], quit = None \<rparr>"

definition demo_world :: "bytes world" where
  "demo_world =
     \<lparr> urlparse_scheme = demo_scheme,
       http_get = (\<lambda>mobile url. Inr [137, 80, 78]),
       chrome = (\<lambda>url mobile_view. demo_browser),
       makedirs = (\<lambda>dir. None),
       write_file = (\<lambda>dir name data. None),
       cv = demo_cv \<rparr>"

definition demo_row :: row where
  "demo_row =
     [''Mobile Response Link'' \<mapsto> ''https://example.com/m.png'',
      ''Desktop Response Link'' \<mapsto> ''https://example.com/d.png'',
      ''Website URL'' \<mapsto> ''example.com'']"

definition demo_rows :: "row list" where
  "demo_rows = [demo_row, Map.empty, demo_row]"

definition demo_world_launch_fails :: "bytes world" where
  "demo_world_launch_fails =
     demo_world \<lparr> chrome := (\<lambda>url mobile_view.
       if mobile_view then demo_browser \<lparr> launch := Some WebDriverException \<rparr> else demo_browser) \<rparr>"

definition demo_world_timeout :: "bytes world" where
  "demo_world_timeout =
     demo_world \<lparr> chrome := (\<lambda>url mobile_view.
       if mobile_view then demo_browser \<lparr> wait_body := Some TimeoutException \<rparr> else demo_browser) \<rparr>"

definition demo_world_write_fails :: "bytes world" where
  "demo_world_write_fails =
     demo_world \<lparr> write_file := (\<lambda>dir name data.
       if name = ''mobile_0.png'' then Some OSError else None) \<rparr>"

definition demo_world_fetch_fails :: "bytes world" where
  "demo_world_fetch_fails =
     demo_world \<lparr> http_get := (\<lambda>mobile url.
       if mobile then Inl RequestException else Inr [137, 80, 78]) \<rparr>"

definition demo_world_score_fails :: "bytes world" where
  "demo_world_score_fails =
     demo_world \<lparr> cv := demo_cv \<lparr> ssim := (\<lambda>a b. Inl ValueError) \<rparr> \<rparr>"

text \<open>
  An imaging library whose similarity index needs an image of at least 7 pixels (the
  window of the index) and raises on a smaller one.
\<close>

definition demo_cv_window :: "bytes imaging" where
  "demo_cv_window =
     demo_cv \<lparr> ssim := (\<lambda>a b. if length a < 7 then Inl ValueError
                              else Inr (if a = b then 1 else 7 / 8)) \<rparr>"

text \<open>
  A frame library that reads the type of a column off its cell in row 0 and refuses a float
  in a column of integers or of strings; and the result columns of a sheet on which an
  earlier run stored 0 in every row, read back as integers.
\<close>

definition demo_accepts :: "frame \<Rightarrow> string \<Rightarrow> real \<Rightarrow> bool" where
  "demo_accepts df col v =
     (case df (0, col) of
        Some (CInt n) \<Rightarrow> False
      | Some (CStr s) \<Rightarrow> False
      | _ \<Rightarrow> True)"

definition demo_frame_rerun :: frame where
  "demo_frame_rerun =
     [(0, ''Mobile Match %'') \<mapsto> CInt 0, (0, ''Desktop Match %'') \<mapsto> CInt 0,
      (1, ''Mobile Match %'') \<mapsto> CInt 0, (1, ''Desktop Match %'') \<mapsto> CInt 0,
      (2, ''Mobile Match %'') \<mapsto> CInt 0, (2, ''Desktop Match %'') \<mapsto> CInt 0]"

section \<open>Holding a browser instance\<close>

text \<open>
  Reading a list of events from the left with the flag \<open>held\<close> (a browser instance
  exists and \<^verbatim>\<open>quit\<close> has not been called on it): a start is only allowed when none
  is held, a quit only when one is, and at the end none may be held.
\<close>

fun browser_released :: "bool \<Rightarrow> event list \<Rightarrow> bool" where
  "browser_released held [] = (\<not> held)"
| "browser_released held (ChromeStarted mobile_view # t) = (\<not> held \<and> browser_released True t)"
| "browser_released held (DriverQuit mobile_view # t) = (held \<and> browser_released False t)"
| "browser_released held (ev # t) = browser_released held t"

section \<open>Basic facts\<close>

lemmas io_defs =
  io_return_def io_raise_def io_emit_def io_bind_def io_try_def io_finally_def
  io_check_def io_lift_def io_gather4_def

lemma download_returns: "\<exists>t r. download_image_as_bytes get link = (t, Inr r)"
  by (auto simp: download_image_as_bytes_def io_defs split: sum.splits prod.splits)

lemma process_row_cases:
  "process_row w index row =
     (case row_steps w index row of
        (t, Inl e) \<Rightarrow> (t @ [ErrorProcessingRow index e], Inr (0, 0))
      | (t, Inr r) \<Rightarrow> (t, Inr r))"
  by (simp add: process_row_def io_defs split: prod.splits sum.splits)

lemma process_row_returns: "\<exists>t m d. process_row w index row = (t, Inr (m, d))"
  by (cases "row_steps w index row") (auto simp: process_row_cases split: sum.splits)

section \<open>The row loop: one result per row, stored under the row's index\<close>

lemma submit_all_nth:
  "k < length rows \<Longrightarrow> submit_all worlds rows ! k = (k, process_row (worlds k) k (rows ! k))"
  by (simp add: submit_all_def nth_enumerate_eq)

lemma collect_returned:
  "\<forall>p \<in> set fs. \<exists>m d. snd (snd p) = Inr (m, d) \<Longrightarrow>
   collect fs = map (\<lambda>p. (fst p, projr (snd (snd p)))) fs"
  by (induction fs rule: collect.induct) auto

lemma gather_results_eq:
  assumes "set completion \<subseteq> {..<length rows}"
  shows "gather_results worlds rows completion =
         map (\<lambda>k. (k, projr (snd (process_row (worlds k) k (rows ! k))))) completion"
proof -
  have ret: "\<forall>p \<in> set (map (\<lambda>k. submit_all worlds rows ! k) completion). \<exists>m d. snd (snd p) = Inr (m, d)"
  proof
    fix p assume "p \<in> set (map (\<lambda>k. submit_all worlds rows ! k) completion)"
    then obtain k where k: "k \<in> set completion" "p = submit_all worlds rows ! k" by auto
    with assms have "k < length rows" by auto
    then have "p = (k, process_row (worlds k) k (rows ! k))" using k by (simp add: submit_all_nth)
    then show "\<exists>m d. snd (snd p) = Inr (m, d)"
      using process_row_returns [of "worlds k" k "rows ! k"] by auto
  qed
  have "gather_results worlds rows completion =
        map (\<lambda>p. (fst p, projr (snd (snd p)))) (map (\<lambda>k. submit_all worlds rows ! k) completion)"
    unfolding gather_results_def by (rule collect_returned [OF ret])
  also have "\<dots> = map (\<lambda>k. (k, projr (snd (process_row (worlds k) k (rows ! k))))) completion"
    using assms by (auto simp: submit_all_nth)
  finally show ?thesis .
qed

lemma update_frame_returns:
  assumes "fits df"
    and "\<And>df' i v. fits df' \<Longrightarrow>
           accepts df' ''Mobile Match %'' v \<and> accepts df' ''Desktop Match %'' v \<and>
           fits (df'((i, ''Mobile Match %'') \<mapsto> CFloat v)) \<and>
           fits (df'((i, ''Desktop Match %'') \<mapsto> CFloat v))"
  shows "\<exists>df'. update_frame accepts results df = Inr df'"
  using assms(1)
proof (induction results arbitrary: df)
  case Nil
  then show ?case by simp
next
  case (Cons r results)
  obtain j m d where r: "r = (j, m, d)" by (cases r) auto
  from assms(2) [OF Cons.prems] have a1: "accepts df ''Mobile Match %'' m"
    and f1: "fits (df((j, ''Mobile Match %'') \<mapsto> CFloat m))" by blast+
  from assms(2) [OF f1] have a2: "accepts (df((j, ''Mobile Match %'') \<mapsto> CFloat m)) ''Desktop Match %'' d"
    and f2: "fits (df((j, ''Mobile Match %'') \<mapsto> CFloat m, (j, ''Desktop Match %'') \<mapsto> CFloat d))"
    by blast+
  have step: "update_frame accepts (r # results) df =
      update_frame accepts results
        (df((j, ''Mobile Match %'') \<mapsto> CFloat m, (j, ''Desktop Match %'') \<mapsto> CFloat d))"
    by (simp add: r df_at_set_def a1 a2)
  from Cons.IH [OF f2] show ?case unfolding step .
qed

lemma update_frame_raises: "update_frame accepts results df = Inl e \<Longrightarrow> e = TypeError"
proof (induction results arbitrary: df)
  case Nil
  then show ?case by simp
next
  case (Cons r results)
  obtain j m d where r: "r = (j, m, d)" by (cases r) auto
  from Cons show ?case
    by (auto simp: r df_at_set_def split: if_splits)
qed

lemma update_frame_other:
  "update_frame accepts results df = Inr df' \<Longrightarrow> k \<notin> fst ` set results \<Longrightarrow>
   df' (k, col) = df (k, col)"
proof (induction results arbitrary: df)
  case Nil
  then show ?case by simp
next
  case (Cons r results)
  obtain j m d where r: "r = (j, m, d)" by (cases r) auto
  from Cons.prems(2) have kj: "k \<noteq> j" and rest: "k \<notin> fst ` set results" by (auto simp: r)
  from Cons.prems(1) have acc: "accepts df ''Mobile Match %'' m"
    "accepts (df((j, ''Mobile Match %'') \<mapsto> CFloat m)) ''Desktop Match %'' d"
    and tail: "update_frame accepts results
                 (df((j, ''Mobile Match %'') \<mapsto> CFloat m, (j, ''Desktop Match %'') \<mapsto> CFloat d)) = Inr df'"
    by (auto simp: r df_at_set_def split: if_splits)
  from Cons.IH [OF tail rest] kj show ?case by simp
qed

lemma update_frame_entry:
  "update_frame accepts results df = Inr df' \<Longrightarrow> distinct (map fst results) \<Longrightarrow>
   (i, m, d) \<in> set results \<Longrightarrow>
   df' (i, ''Mobile Match %'') = Some (CFloat m) \<and> df' (i, ''Desktop Match %'') = Some (CFloat d)"
proof (induction results arbitrary: df)
  case Nil
  then show ?case by simp
next
  case (Cons r results)
  obtain j m' d' where r: "r = (j, m', d')" by (cases r) auto
  from Cons.prems(1) have tail: "update_frame accepts results
                 (df((j, ''Mobile Match %'') \<mapsto> CFloat m', (j, ''Desktop Match %'') \<mapsto> CFloat d')) = Inr df'"
    by (auto simp: r df_at_set_def split: if_splits)
  show ?case
  proof (cases "(i, m, d) \<in> set results")
    case True
    from Cons.IH [OF tail _ True] Cons.prems(2) show ?thesis by simp
  next
    case False
    with Cons.prems(3) have eq: "j = i" "m' = m" "d' = d" by (auto simp: r)
    from Cons.prems(2) have "i \<notin> fst ` set results" by (auto simp: r eq)
    from update_frame_other [OF tail this] show ?thesis by (simp add: eq)
  qed
qed

text \<open>
  C1 (amended). Whatever the order in which the futures complete (any arrangement
  \<open>completion\<close> of the positions \<open>0 ..< N\<close> of the \<open>N\<close> rows), the loop gathers exactly
  \<open>N\<close> tuples, their indices are pairwise different and are exactly \<open>0 ..< N\<close>, and the
  tuple of row \<open>i\<close> holds the pair that \<open>process_row\<close> returned for it. When the
  assignments into the frame return, the frame holds that pair in the two result columns
  at index \<open>i\<close>, for every row; they return whenever the frame is in a state \<open>fits\<close> in
  which the result columns take a float and which the assignments keep. An assignment
  that the frame refuses raises \<^verbatim>\<open>TypeError\<close>, which ends the run.
\<close>

theorem run_one_result_per_row:
  assumes perm: "mset completion = mset [0..<length rows]"
  shows "length (gather_results worlds rows completion) = length rows \<and>
         distinct (map fst (gather_results worlds rows completion)) \<and>
         set (map fst (gather_results worlds rows completion)) = {..<length rows} \<and>
         (\<forall>i<length rows. \<exists>m d.
             snd (process_row (worlds i) i (rows ! i)) = Inr (m, d) \<and>
             (i, m, d) \<in> set (gather_results worlds rows completion)) \<and>
         (\<forall>df'. run accepts worlds rows completion df = Inr df' \<longrightarrow>
            (\<forall>i<length rows. \<exists>m d.
               snd (process_row (worlds i) i (rows ! i)) = Inr (m, d) \<and>
               df' (i, ''Mobile Match %'') = Some (CFloat m) \<and>
               df' (i, ''Desktop Match %'') = Some (CFloat d))) \<and>
         (fits df \<and>
          (\<forall>df' i v. fits df' \<longrightarrow>
               accepts df' ''Mobile Match %'' v \<and> accepts df' ''Desktop Match %'' v \<and>
               fits (df'((i, ''Mobile Match %'') \<mapsto> CFloat v)) \<and>
               fits (df'((i, ''Desktop Match %'') \<mapsto> CFloat v))) \<longrightarrow>
            (\<exists>df'. run accepts worlds rows completion df = Inr df')) \<and>
         (\<forall>e. run accepts worlds rows completion df = Inl e \<longrightarrow> e = TypeError)"
proof -
  let ?res = "gather_results worlds rows completion"
  from perm have set_c: "set completion = {..<length rows}"
    by (metis atLeast_upt mset_eq_setD)
  from perm have dist_c: "distinct completion"
    by (metis distinct_upt mset_eq_imp_distinct_iff)
  from perm have len_c: "length completion = length rows"
    by (metis length_upt mset_eq_length minus_nat.diff_0)
  have res: "?res = map (\<lambda>k. (k, projr (snd (process_row (worlds k) k (rows ! k))))) completion"
    by (rule gather_results_eq) (simp add: set_c)
  have idx: "map fst ?res = completion"
    by (simp add: res comp_def)
  have gathered: "\<exists>m d. snd (process_row (worlds i) i (rows ! i)) = Inr (m, d) \<and> (i, m, d) \<in> set ?res"
    if "i < length rows" for i
  proof -
    obtain t m d where pr: "process_row (worlds i) i (rows ! i) = (t, Inr (m, d))"
      using process_row_returns by blast
    from that have "i \<in> set completion" by (simp add: set_c)
    then have "(i, m, d) \<in> set ?res" by (force simp: res pr)
    with pr show ?thesis by auto
  qed
  have stored: "\<exists>m d. snd (process_row (worlds i) i (rows ! i)) = Inr (m, d) \<and>
                  df' (i, ''Mobile Match %'') = Some (CFloat m) \<and>
                  df' (i, ''Desktop Match %'') = Some (CFloat d)"
    if "run accepts worlds rows completion df = Inr df'" and "i < length rows" for df' i
  proof -
    from gathered [OF that(2)] obtain m d
      where pr: "snd (process_row (worlds i) i (rows ! i)) = Inr (m, d)" and mem: "(i, m, d) \<in> set ?res"
      by blast
    from dist_c have "distinct (map fst ?res)" by (simp add: idx)
    from update_frame_entry [OF that(1) [unfolded run_def] this mem] pr show ?thesis by blast
  qed
  have returns: "\<exists>df'. run accepts worlds rows completion df = Inr df'"
    if "fits df \<and>
          (\<forall>df' i v. fits df' \<longrightarrow>
               accepts df' ''Mobile Match %'' v \<and> accepts df' ''Desktop Match %'' v \<and>
               fits (df'((i, ''Mobile Match %'') \<mapsto> CFloat v)) \<and>
               fits (df'((i, ''Desktop Match %'') \<mapsto> CFloat v)))"
    unfolding run_def using that by (intro update_frame_returns [of fits]) blast+
  have raises: "e = TypeError" if "run accepts worlds rows completion df = Inl e" for e
    using that unfolding run_def by (rule update_frame_raises)
  have "length ?res = length rows" using len_c by (simp add: res)
  moreover have "distinct (map fst ?res)" using dist_c by (simp add: idx)
  moreover have "set (map fst ?res) = {..<length rows}" using set_c by (simp add: idx)
  ultimately show ?thesis using gathered stored returns raises by blast
qed


theorem run_one_result_per_row_witness:
  "mset [2, 0, 1] = mset [0..<length demo_rows] \<and>
   gather_results (\<lambda>i. demo_world) demo_rows [2, 0, 1] =
     [(2, 175 / 2, 175 / 2), (0, 175 / 2, 175 / 2), (1, 0, 0)] \<and>
   (\<forall>col v. demo_accepts Map.empty col v) \<and>
   snd (process_row demo_world 1 (demo_rows ! 1)) = Inr (0, 0) \<and>
   snd (process_row demo_world 2 (demo_rows ! 2)) = Inr (175 / 2, 175 / 2) \<and>
   (\<exists>df'. run demo_accepts (\<lambda>i. demo_world) demo_rows [2, 0, 1] Map.empty = Inr df' \<and>
      df' (1, ''Mobile Match %'') = Some (CFloat 0) \<and>
      df' (1, ''Desktop Match %'') = Some (CFloat 0) \<and>
      df' (2, ''Mobile Match %'') = Some (CFloat (175 / 2)) \<and>
      df' (2, ''Desktop Match %'') = Some (CFloat (175 / 2)))"
proof -
  let ?fits = "\<lambda>df :: frame. \<forall>col v. demo_accepts df col v"
  have perm: "mset [2, 0, 1] = mset [0..<length demo_rows]"
    by (simp add: demo_rows_def upt_rec)
  have val: "gather_results (\<lambda>i. demo_world) demo_rows [2, 0, 1] =
     [(2, 175 / 2, 175 / 2), (0, 175 / 2, 175 / 2), (1, 0, 0)]"
    by code_simp
  have row1: "snd (process_row demo_world 1 (demo_rows ! 1)) = Inr (0, 0)"
    by code_simp
  have row2: "snd (process_row demo_world 2 (demo_rows ! 2)) = Inr (175 / 2, 175 / 2)"
    by code_simp
  have len: "(1::nat) < length demo_rows" "(2::nat) < length demo_rows"
    by (simp_all add: demo_rows_def)
  have fits0: "?fits Map.empty"
    by (simp add: demo_accepts_def)
  have keep: "\<forall>df' i v. ?fits df' \<longrightarrow>
       demo_accepts df' ''Mobile Match %'' v \<and> demo_accepts df' ''Desktop Match %'' v \<and>
       ?fits (df'((i, ''Mobile Match %'') \<mapsto> CFloat v)) \<and>
       ?fits (df'((i, ''Desktop Match %'') \<mapsto> CFloat v))"
    by (simp add: demo_accepts_def)
  note all = run_one_result_per_row [OF perm, of "\<lambda>i. demo_world" demo_accepts Map.empty ?fits]
  from all fits0 keep obtain df'
    where ret: "run demo_accepts (\<lambda>i. demo_world) demo_rows [2, 0, 1] Map.empty = Inr df'"
    by blast
  from all ret len(1) row1
  have at1: "df' (1, ''Mobile Match %'') = Some (CFloat 0) \<and> df' (1, ''Desktop Match %'') = Some (CFloat 0)"
    by fastforce
  from all ret len(2) row2
  have at2: "df' (2, ''Mobile Match %'') = Some (CFloat (175 / 2)) \<and>
             df' (2, ''Desktop Match %'') = Some (CFloat (175 / 2))"
    by fastforce
  from perm val fits0 row1 row2 ret at1 at2 show ?thesis by blast
qed

text \<open>
  C1 as stated fails: on a sheet whose result columns an earlier run filled with 0, read
  back as integers, the first assignment of 87.5 is refused and the run ends with
  \<^verbatim>\<open>TypeError\<close> instead of a table.
\<close>

theorem run_refused_assignment_counterexample:
  "mset [2, 0, 1] = mset [0..<length demo_rows] \<and>
   gather_results (\<lambda>i. demo_world) demo_rows [2, 0, 1] =
     [(2, 175 / 2, 175 / 2), (0, 175 / 2, 175 / 2), (1, 0, 0)] \<and>
   demo_frame_rerun (0, ''Mobile Match %'') = Some (CInt 0) \<and>
   \<not> demo_accepts demo_frame_rerun ''Mobile Match %'' (175 / 2) \<and>
   run demo_accepts (\<lambda>i. demo_world) demo_rows [2, 0, 1] demo_frame_rerun = Inl TypeError"
proof -
  have perm: "mset [2, 0, 1] = mset [0..<length demo_rows]"
    by (simp add: demo_rows_def upt_rec)
  have val: "gather_results (\<lambda>i. demo_world) demo_rows [2, 0, 1] =
     [(2, 175 / 2, 175 / 2), (0, 175 / 2, 175 / 2), (1, 0, 0)]"
    by code_simp
  have cell: "demo_frame_rerun (0, ''Mobile Match %'') = Some (CInt 0)"
    by (simp add: demo_frame_rerun_def)
  have no: "\<not> demo_accepts demo_frame_rerun ''Mobile Match %'' (175 / 2)"
    by (simp add: demo_accepts_def cell)
  have "run demo_accepts (\<lambda>i. demo_world) demo_rows [2, 0, 1] demo_frame_rerun = Inl TypeError"
    unfolding run_def val by (simp add: df_at_set_def no)
  with perm val cell no show ?thesis by blast
qed

section \<open>The row boundary\<close>

text \<open>
  C2. \<open>process_row\<close> always returns a pair and never raises; and whenever an exception
  leaves the steps inside its \<^verbatim>\<open>try\<close> block (a missing column, the URL parser, a
  capture, the directory or a file write, the scorer), the row's index and the exception
  are printed and the row's result is \<open>(0, 0)\<close>.
\<close>

theorem process_row_never_raises:
  "(\<exists>t m d. process_row w index row = (t, Inr (m, d))) \<and>
   (\<forall>t e. row_steps w index row = (t, Inl e) \<longrightarrow>
      process_row w index row = (t @ [ErrorProcessingRow index e], Inr (0, 0)))"
  using process_row_returns [of w index row] by (simp add: process_row_cases)

theorem process_row_never_raises_witness:
  "snd (row_steps demo_world 0 Map.empty) = Inl (KeyError ''Mobile Response Link'') \<and>
   snd (process_row demo_world 0 Map.empty) = Inr (0, 0) \<and>
   snd (row_steps demo_world_launch_fails 0 demo_row) = Inl WebDriverException \<and>
   snd (process_row demo_world_launch_fails 0 demo_row) = Inr (0, 0) \<and>
   snd (row_steps demo_world_write_fails 0 demo_row) = Inl OSError \<and>
   snd (process_row demo_world_write_fails 0 demo_row) = Inr (0, 0) \<and>
   snd (row_steps demo_world_score_fails 0 demo_row) = Inl ValueError \<and>
   snd (process_row demo_world_score_fails 0 demo_row) = Inr (0, 0)"
proof -
  have a: "snd (row_steps demo_world 0 Map.empty) = Inl (KeyError ''Mobile Response Link'')"
    by code_simp
  have b: "snd (row_steps demo_world_launch_fails 0 demo_row) = Inl WebDriverException"
    by code_simp
  have c: "snd (row_steps demo_world_write_fails 0 demo_row) = Inl OSError"
    by code_simp
  have d: "snd (row_steps demo_world_score_fails 0 demo_row) = Inl ValueError"
    by code_simp
  have step: "snd (process_row w index row) = Inr (0, 0)"
    if "snd (row_steps w index row) = Inl e" for w :: "bytes world" and index row e
    using that process_row_never_raises [of w index row]
    by (cases "row_steps w index row") auto
  from a b c d step [OF a] step [OF b] step [OF c] step [OF d] show ?thesis by blast
qed

section \<open>The browser instance of a capture\<close>

lemma capture_cases:
  "capture_screenshot_as_bytes browse url mobile_view =
     (case launch (browse url mobile_view) of
        Some e \<Rightarrow> ([], Inl e)
      | None \<Rightarrow>
          (let body =
                 (case navigate (browse url mobile_view) of
                    Some e \<Rightarrow> ([ErrorCapturing e], None)
                  | None \<Rightarrow>
                      (case wait_body (browse url mobile_view) of
                         Some e \<Rightarrow> ([ErrorCapturing e], None)
                       | None \<Rightarrow>
                           (case screenshot (browse url mobile_view) of
                              Inl e \<Rightarrow> ([ErrorCapturing e], None)
                            | Inr png \<Rightarrow> ([], Some png))))
           in (ChromeStarted mobile_view # fst body @ [DriverQuit mobile_view],
               case quit (browse url mobile_view) of
                 Some e \<Rightarrow> Inl e
               | None \<Rightarrow> Inr (snd body))))"
  by (simp add: capture_screenshot_as_bytes_def io_defs Let_def split: option.splits sum.splits)

text \<open>
  C10. In every call of \<open>capture_screenshot_as_bytes\<close>, whatever the browser does, no
  browser instance is held when the call ends. When the browser started, the events of
  the call begin with that start and end with the call of \<^verbatim>\<open>driver.quit()\<close>, on the
  path that returns a screenshot and on the paths where navigation, the wait or the
  screenshot raised; when it did not start, there is no instance and the exception of the
  launch leaves the call.
\<close>

theorem capture_always_quits:
  "browser_released False (fst (capture_screenshot_as_bytes browse url mobile_view)) \<and>
   (launch (browse url mobile_view) = None \<longrightarrow>
      (\<exists>mid. fst (capture_screenshot_as_bytes browse url mobile_view) =
               ChromeStarted mobile_view # mid @ [DriverQuit mobile_view])) \<and>
   (\<forall>e. launch (browse url mobile_view) = Some e \<longrightarrow>
      capture_screenshot_as_bytes browse url mobile_view = ([], Inl e))"
  by (auto simp: capture_cases Let_def split: option.splits sum.splits)


theorem capture_always_quits_witness:
  "launch (chrome demo_world_timeout ''https://example.com'' True) = None \<and>
   capture_screenshot_as_bytes (chrome demo_world_timeout) ''https://example.com'' True =
     ([ChromeStarted True, ErrorCapturing TimeoutException, DriverQuit True], Inr None) \<and>
   browser_released False
     (fst (capture_screenshot_as_bytes (chrome demo_world_timeout) ''https://example.com'' True)) \<and>
   launch (chrome demo_world_launch_fails ''https://example.com'' True) = Some WebDriverException \<and>
   capture_screenshot_as_bytes (chrome demo_world_launch_fails) ''https://example.com'' True =
     ([], Inl WebDriverException)"
proof -
  have ok: "launch (chrome demo_world_timeout ''https://example.com'' True) = None"
    by (simp add: demo_world_timeout_def demo_world_def demo_browser_def)
  have bad: "launch (chrome demo_world_launch_fails ''https://example.com'' True) = Some WebDriverException"
    by (simp add: demo_world_launch_fails_def demo_world_def demo_browser_def)
  have run: "capture_screenshot_as_bytes (chrome demo_world_timeout) ''https://example.com'' True =
     ([ChromeStarted True, ErrorCapturing TimeoutException, DriverQuit True], Inr None)"
    by code_simp
  from capture_always_quits [of "chrome demo_world_timeout" "''https://example.com''" True]
       capture_always_quits [of "chrome demo_world_launch_fails" "''https://example.com''" True]
       ok bad run
  show ?thesis by blast
qed

section \<open>The scorer on undecodable input\<close>




section \<open>The scorer on an image and itself\<close>

text \<open>
  C7 (amended). For every decodable image that resizing to its own width and height
  returns unchanged: when the similarity index of the image with itself is returned, the
  score of the image against itself is exactly that index times 100, rounded to 2 places;
  it is the rounding of 100 when the index is 1, and 100 when that rounding is 100. When
  the similarity index raises on the image, the exception leaves the scorer.
\<close>

theorem compare_image_with_itself:
  assumes "imdecode lib img_bytes = Inr (Some img)"
    and "resize lib img (snd (shape lib img), fst (shape lib img)) = Inr img"
  shows "(\<forall>x. ssim lib img img = Inr x \<longrightarrow>
            compare_images_bytes lib img_bytes img_bytes = Inr (pyround lib (x * 100) 2)) \<and>
         (ssim lib img img = Inr 1 \<longrightarrow>
            compare_images_bytes lib img_bytes img_bytes = Inr (pyround lib 100 2)) \<and>
         (ssim lib img img = Inr 1 \<and> pyround lib 100 2 = 100 \<longrightarrow>
            compare_images_bytes lib img_bytes img_bytes = Inr 100) \<and>
         (\<forall>e. ssim lib img img = Inl e \<longrightarrow>
            compare_images_bytes lib img_bytes img_bytes = Inl e)"
  using assms by (simp add: compare_images_bytes_def)

theorem compare_image_with_itself_witness:
  "imdecode demo_cv [137, 80, 78] = Inr (Some [137, 80, 78]) \<and>
   resize demo_cv [137, 80, 78] (snd (shape demo_cv [137, 80, 78]), fst (shape demo_cv [137, 80, 78])) =
     Inr [137, 80, 78] \<and>
   ssim demo_cv [137, 80, 78] [137, 80, 78] = Inr 1 \<and>
   pyround demo_cv 100 2 = 100 \<and>
   compare_images_bytes demo_cv [137, 80, 78] [137, 80, 78] = Inr 100"
proof -
  have a: "imdecode demo_cv [137, 80, 78] = Inr (Some [137, 80, 78])"
    by (simp add: demo_cv_def)
  have b: "resize demo_cv [137, 80, 78]
             (snd (shape demo_cv [137, 80, 78]), fst (shape demo_cv [137, 80, 78])) = Inr [137, 80, 78]"
    by (simp add: demo_cv_def)
  have c: "ssim demo_cv [137, 80, 78] [137, 80, 78] = Inr 1"
    by (simp add: demo_cv_def)
  have d: "pyround demo_cv 100 2 = 100"
    by (simp add: demo_cv_def)
  from compare_image_with_itself [OF a b] c d
  have "compare_images_bytes demo_cv [137, 80, 78] [137, 80, 78] = Inr 100" by blast
  with a b c d show ?thesis by blast
qed

text \<open>
  C7 as stated fails: a decodable image of one pixel, smaller than the window of the
  similarity index, makes the index raise; scoring the image against itself raises and
  yields no score.
\<close>

theorem compare_small_image_counterexample:
  "imdecode demo_cv_window [137] = Inr (Some [137]) \<and>
   resize demo_cv_window [137] (snd (shape demo_cv_window [137]), fst (shape demo_cv_window [137])) =
     Inr [137] \<and>
   ssim demo_cv_window [137] [137] = Inl ValueError \<and>
   compare_images_bytes demo_cv_window [137] [137] = Inl ValueError"
  by (simp add: compare_images_bytes_def demo_cv_window_def demo_cv_def)

section \<open>URL normalisation\<close>

text \<open>
  C8 (amended). For every string on which the URL parser returns a scheme:
  \<open>validate_url\<close> returns the string with \<^verbatim>\<open>https://\<close> in front if and only if the
  scheme is empty, and returns the string unchanged when the scheme is not empty. For a
  string that the parser rejects, \<open>validate_url\<close> raises the parser's exception and
  returns neither.
\<close>

theorem validate_url_prefixes_iff_no_scheme:
  "(\<forall>scheme. scheme_of url = Inr scheme \<longrightarrow>
      (validate_url scheme_of url = Inr (''https://'' @ url) \<longleftrightarrow> scheme = []) \<and>
      (scheme \<noteq> [] \<longrightarrow> validate_url scheme_of url = Inr url)) \<and>
   (\<forall>e. scheme_of url = Inl e \<longrightarrow> validate_url scheme_of url = Inl e)"
  by (simp add: validate_url_def)

theorem validate_url_prefixes_iff_no_scheme_witness:
  "demo_scheme ''example.com'' = Inr [] \<and>
   validate_url demo_scheme ''example.com'' = Inr ''https://example.com'' \<and>
   demo_scheme ''http://example.com'' = Inr ''http'' \<and>
   validate_url demo_scheme ''http://example.com'' = Inr ''http://example.com'' \<and>
   demo_scheme ''http://[::1'' = Inl ValueError \<and>
   validate_url demo_scheme ''http://[::1'' = Inl ValueError"
proof -
  have a: "demo_scheme ''example.com'' = Inr []" by code_simp
  have b: "demo_scheme ''http://example.com'' = Inr ''http''" by code_simp
  have c: "demo_scheme ''http://[::1'' = Inl ValueError" by code_simp
  from a b c
    validate_url_prefixes_iff_no_scheme [of demo_scheme "''example.com''"]
    validate_url_prefixes_iff_no_scheme [of demo_scheme "''http://example.com''"]
    validate_url_prefixes_iff_no_scheme [of demo_scheme "''http://[::1''"]
  show ?thesis by simp
qed

text \<open>
  C8 as stated fails: on \<^verbatim>\<open>http://[::1\<close> the parser raises, and \<open>validate_url\<close> returns
  neither the string nor the string with the prefix.
\<close>

theorem validate_url_rejected_string_counterexample:
  "demo_scheme ''http://[::1'' = Inl ValueError \<and>
   validate_url demo_scheme ''http://[::1'' = Inl ValueError \<and>
   validate_url demo_scheme ''http://[::1'' \<noteq> Inr ''http://[::1'' \<and>
   validate_url demo_scheme ''http://[::1'' \<noteq> Inr (''https://'' @ ''http://[::1'')"
proof -
  have c: "demo_scheme ''http://[::1'' = Inl ValueError" by code_simp
  then show ?thesis by (simp add: validate_url_def)
qed

section \<open>The download URL of a reference image\<close>

text \<open>A link without \<^verbatim>\<open>drive.google.com\<close> is requested as it is; a sharing link is rewritten.\<close>

lemma download_url_of_other:
  "\<not> contains ''drive.google.com'' drive_link \<Longrightarrow> download_url_of drive_link = Inr drive_link"
  by (simp add: download_url_of_def file_id_of_def)

lemma download_url_of_sharing_link:
  "download_url_of ''https://drive.google.com/file/d/1AbC/view?usp=sharing'' =
   Inr ''https://drive.google.com/uc?id=1AbC&export=download''"
  by code_simp

lemma split_from_no_separator:
  "\<not> contains sep s \<Longrightarrow> split_from sep cur s = [cur @ s]"
proof (induction sep cur s rule: split_from.induct)
  case (1 sep cur s)
  show ?case
  proof (cases s)
    case Nil
    then show ?thesis by (simp add: split_from.simps)
  next
    case (Cons c cs)
    with "1.prems" have np: "\<not> prefix sep s" and nc: "\<not> contains sep cs" by auto
    from "1.IH"(2) Cons np nc have "split_from sep (cur @ [hd s]) (tl s) = [(cur @ [hd s]) @ tl s]"
      by simp
    with Cons np show ?thesis by (subst split_from.simps) simp
  qed
qed

lemma drive_link_without_separator_fails:
  assumes "contains ''drive.google.com'' drive_link" and "\<not> contains ''/d/'' drive_link"
  shows "download_image_as_bytes get drive_link = ([ErrorDownloading IndexError], Inr None)"
proof -
  have "py_split drive_link ''/d/'' = Inr [drive_link]"
    using assms(2) by (simp add: py_split_def split_from_no_separator)
  then have "download_url_of drive_link = Inl IndexError"
    using assms(1) by (simp add: download_url_of_def file_id_of_def item_def)
  then show ?thesis
    by (simp add: download_image_as_bytes_def io_defs)
qed

text \<open>
  C9. The claim that every source that is not a sharing link of the known pattern is used
  verbatim as the download URL fails for a Drive link without \<^verbatim>\<open>/d/\<close>, such as a
  direct-download link: \<^verbatim>\<open>split("/d/")[1]\<close> raises IndexError, the handler prints it
  and the function returns \<open>None\<close>, whatever the network would have answered; no request
  is made.
\<close>

theorem download_drive_link_without_d:
  "download_url_of ''https://drive.google.com/uc?id=1AbC&export=download'' = Inl IndexError \<and>
   download_image_as_bytes get ''https://drive.google.com/uc?id=1AbC&export=download'' =
     ([ErrorDownloading IndexError], Inr None)"
proof -
  have "download_url_of ''https://drive.google.com/uc?id=1AbC&export=download'' = Inl IndexError"
    by code_simp
  then show ?thesis
    by (simp add: download_image_as_bytes_def io_defs)
qed

section \<open>What the steps of a row yield\<close>

lemma snd_io_bind:
  "snd (io_bind m f) = (case snd m of Inl e \<Rightarrow> Inl e | Inr x \<Rightarrow> snd (f x))"
  by (simp add: io_bind_def split: prod.splits sum.splits)

lemma snd_io_simps:
  "snd (io_return x) = Inr x"
  "snd (io_raise e) = Inl e"
  "snd (io_emit ev) = Inr ()"
  "snd (io_lift r) = r"
  "snd (io_check outcome) = (case outcome of None \<Rightarrow> Inr () | Some e \<Rightarrow> Inl e)"
  by (simp_all add: io_defs split: option.splits)

lemma snd_io_gather4:
  "snd (io_gather4 m1 m2 m3 m4) =
     (case snd m1 of Inl e \<Rightarrow> Inl e | Inr a \<Rightarrow>
     (case snd m2 of Inl e \<Rightarrow> Inl e | Inr b \<Rightarrow>
     (case snd m3 of Inl e \<Rightarrow> Inl e | Inr c \<Rightarrow>
     (case snd m4 of Inl e \<Rightarrow> Inl e | Inr d \<Rightarrow> Inr (a, b, c, d)))))"
  by (simp add: io_gather4_def)

lemma snd_save_screenshot:
  "snd (save_screenshot w dir name site) =
     (case site of
        None \<Rightarrow> Inr ()
      | Some png \<Rightarrow> (case write_file w dir name png of None \<Rightarrow> Inr () | Some e \<Rightarrow> Inl e))"
  by (simp add: save_screenshot_def snd_io_bind snd_io_simps split: option.splits)

lemma snd_similarity:
  "snd (similarity w ref site) =
     (case ref of
        None \<Rightarrow> Inr 0
      | Some r \<Rightarrow> (case site of None \<Rightarrow> Inr 0 | Some s \<Rightarrow> compare_images_bytes (cv w) r s))"
  by (simp add: similarity_def snd_io_simps split: option.splits)

lemma row_steps_outcome:
  assumes "row ''Mobile Response Link'' = Some mobile_link"
    and "row ''Desktop Response Link'' = Some desktop_link"
    and "row ''Website URL'' = Some url"
    and "validate_url (urlparse_scheme w) url = Inr website_url"
    and "snd (download_image_as_bytes (http_get w True) mobile_link) = Inr mobile_ref"
    and "snd (download_image_as_bytes (http_get w False) desktop_link) = Inr desktop_ref"
  shows "snd (row_steps w index row) =
     (case snd (capture_screenshot_as_bytes (chrome w) website_url True) of
        Inl e \<Rightarrow> Inl e
      | Inr mobile_site \<Rightarrow>
     (case snd (capture_screenshot_as_bytes (chrome w) website_url False) of
        Inl e \<Rightarrow> Inl e
      | Inr desktop_site \<Rightarrow>
     (case makedirs w ''website_screenshots'' of
        Some e \<Rightarrow> Inl e
      | None \<Rightarrow>
     (case snd (save_screenshot w ''website_screenshots''
                  (''mobile_'' @ str_nat index @ ''.png'') mobile_site) of
        Inl e \<Rightarrow> Inl e
      | Inr _ \<Rightarrow>
     (case snd (save_screenshot w ''website_screenshots''
                  (''desktop_'' @ str_nat index @ ''.png'') desktop_site) of
        Inl e \<Rightarrow> Inl e
      | Inr _ \<Rightarrow>
     (case snd (similarity w mobile_ref mobile_site) of
        Inl e \<Rightarrow> Inl e
      | Inr m \<Rightarrow>
     (case snd (similarity w desktop_ref desktop_site) of
        Inl e \<Rightarrow> Inl e
      | Inr d \<Rightarrow> Inr (m, d))))))))"
  using assms
  by (simp add: row_steps_def field_def snd_io_bind snd_io_simps snd_io_gather4
           split: sum.splits option.splits)


lemma process_row_outcome:
  "snd (process_row w index row) =
     (case snd (row_steps w index row) of Inl e \<Rightarrow> Inr (0, 0) | Inr r \<Rightarrow> Inr r)"
  by (simp add: process_row_cases split: prod.splits sum.splits)

lemma missing_image_scores_zero:
  assumes "row ''Mobile Response Link'' = Some mobile_link"
    and "row ''Desktop Response Link'' = Some desktop_link"
    and "row ''Website URL'' = Some url"
    and "validate_url (urlparse_scheme w) url = Inr website_url"
    and "snd (process_row w index row) = Inr (m, d)"
  shows "snd (download_image_as_bytes (http_get w True) mobile_link) = Inr None \<or>
         snd (capture_screenshot_as_bytes (chrome w) website_url True) = Inr None \<Longrightarrow> m = 0"
    and "snd (download_image_as_bytes (http_get w False) desktop_link) = Inr None \<or>
         snd (capture_screenshot_as_bytes (chrome w) website_url False) = Inr None \<Longrightarrow> d = 0"
proof -
  obtain t1 mobile_ref where dl1: "download_image_as_bytes (http_get w True) mobile_link = (t1, Inr mobile_ref)"
    using download_returns by blast
  obtain t2 desktop_ref where dl2: "download_image_as_bytes (http_get w False) desktop_link = (t2, Inr desktop_ref)"
    using download_returns by blast
  note out = row_steps_outcome [OF assms(1-4), of mobile_ref desktop_ref index, simplified dl1 dl2, simplified]
  show "m = 0"
    if "snd (download_image_as_bytes (http_get w True) mobile_link) = Inr None \<or>
        snd (capture_screenshot_as_bytes (chrome w) website_url True) = Inr None"
    using that assms(5) out
    by (auto simp: process_row_outcome dl1 snd_similarity split: sum.splits option.splits)
  show "d = 0"
    if "snd (download_image_as_bytes (http_get w False) desktop_link) = Inr None \<or>
        snd (capture_screenshot_as_bytes (chrome w) website_url False) = Inr None"
    using that assms(5) out
    by (auto simp: process_row_outcome dl2 snd_similarity split: sum.splits option.splits)
qed

lemma both_images_scored:
  assumes "row ''Mobile Response Link'' = Some mobile_link"
    and "row ''Desktop Response Link'' = Some desktop_link"
    and "row ''Website URL'' = Some url"
    and "validate_url (urlparse_scheme w) url = Inr website_url"
    and "snd (process_row w index row) = Inr (m, d)"
    and "snd (row_steps w index row) = Inr x"
  shows "snd (download_image_as_bytes (http_get w True) mobile_link) = Inr (Some r) \<Longrightarrow>
         snd (capture_screenshot_as_bytes (chrome w) website_url True) = Inr (Some s) \<Longrightarrow>
         compare_images_bytes (cv w) r s = Inr m"
    and "snd (download_image_as_bytes (http_get w False) desktop_link) = Inr (Some r) \<Longrightarrow>
         snd (capture_screenshot_as_bytes (chrome w) website_url False) = Inr (Some s) \<Longrightarrow>
         compare_images_bytes (cv w) r s = Inr d"
proof -
  obtain t1 mobile_ref where dl1: "download_image_as_bytes (http_get w True) mobile_link = (t1, Inr mobile_ref)"
    using download_returns by blast
  obtain t2 desktop_ref where dl2: "download_image_as_bytes (http_get w False) desktop_link = (t2, Inr desktop_ref)"
    using download_returns by blast
  note out = row_steps_outcome [OF assms(1-4), of mobile_ref desktop_ref index, simplified dl1 dl2, simplified]
  show "compare_images_bytes (cv w) r s = Inr m"
    if "snd (download_image_as_bytes (http_get w True) mobile_link) = Inr (Some r)"
      and "snd (capture_screenshot_as_bytes (chrome w) website_url True) = Inr (Some s)"
    using that assms(5,6) out
    by (auto simp: process_row_outcome dl1 snd_similarity split: sum.splits option.splits)
  show "compare_images_bytes (cv w) r s = Inr d"
    if "snd (download_image_as_bytes (http_get w False) desktop_link) = Inr (Some r)"
      and "snd (capture_screenshot_as_bytes (chrome w) website_url False) = Inr (Some s)"
    using that assms(5,6) out
    by (auto simp: process_row_outcome dl2 snd_similarity split: sum.splits option.splits)
qed

section \<open>A failed reference fetch\<close>

text \<open>
  C3. In a row whose three columns are present and whose URL parses: when one viewport's
  reference fetch returned \<open>None\<close> and that viewport's capture returned a screenshot, that
  viewport's similarity is \<open>0\<close>, whatever else happens in the row. When nothing else fails
  in the row (the other capture returns, the directory is created and the screenshots are
  written), the other viewport's similarity is the value the scorer returns on its own
  reference and screenshot when both were obtained; it is \<open>0\<close> when one of them is missing,
  and \<open>0\<close> by the row boundary when the scorer raises.
\<close>

theorem failed_fetch_zeroes_its_viewport:
  assumes "row ''Mobile Response Link'' = Some mobile_link"
    and "row ''Desktop Response Link'' = Some desktop_link"
    and "row ''Website URL'' = Some url"
    and "validate_url (urlparse_scheme w) url = Inr website_url"
    and "snd (process_row w index row) = Inr (m, d)"
  shows "(snd (download_image_as_bytes (http_get w True) mobile_link) = Inr None \<and>
          snd (capture_screenshot_as_bytes (chrome w) website_url True) = Inr (Some png) \<longrightarrow>
            m = 0 \<and>
            (\<forall>desktop_ref desktop_site.
               snd (download_image_as_bytes (http_get w False) desktop_link) = Inr desktop_ref \<and>
               snd (capture_screenshot_as_bytes (chrome w) website_url False) = Inr desktop_site \<and>
               makedirs w ''website_screenshots'' = None \<and>
               snd (save_screenshot w ''website_screenshots''
                      (''mobile_'' @ str_nat index @ ''.png'') (Some png)) = Inr () \<and>
               snd (save_screenshot w ''website_screenshots''
                      (''desktop_'' @ str_nat index @ ''.png'') desktop_site) = Inr () \<longrightarrow>
               d = (case desktop_ref of
                      None \<Rightarrow> 0
                    | Some r \<Rightarrow>
                        (case desktop_site of
                           None \<Rightarrow> 0
                         | Some s \<Rightarrow>
                             (case compare_images_bytes (cv w) r s of
                                Inr x \<Rightarrow> x
                              | Inl e \<Rightarrow> 0))))) \<and>
         (snd (download_image_as_bytes (http_get w False) desktop_link) = Inr None \<and>
          snd (capture_screenshot_as_bytes (chrome w) website_url False) = Inr (Some png) \<longrightarrow>
            d = 0 \<and>
            (\<forall>mobile_ref mobile_site.
               snd (download_image_as_bytes (http_get w True) mobile_link) = Inr mobile_ref \<and>
               snd (capture_screenshot_as_bytes (chrome w) website_url True) = Inr mobile_site \<and>
               makedirs w ''website_screenshots'' = None \<and>
               snd (save_screenshot w ''website_screenshots''
                      (''mobile_'' @ str_nat index @ ''.png'') mobile_site) = Inr () \<and>
               snd (save_screenshot w ''website_screenshots''
                      (''desktop_'' @ str_nat index @ ''.png'') (Some png)) = Inr () \<longrightarrow>
               m = (case mobile_ref of
                      None \<Rightarrow> 0
                    | Some r \<Rightarrow>
                        (case mobile_site of
                           None \<Rightarrow> 0
                         | Some s \<Rightarrow>
                             (case compare_images_bytes (cv w) r s of
                                Inr x \<Rightarrow> x
                              | Inl e \<Rightarrow> 0)))))"
proof (intro conjI impI allI)
  assume "snd (download_image_as_bytes (http_get w True) mobile_link) = Inr None \<and>
          snd (capture_screenshot_as_bytes (chrome w) website_url True) = Inr (Some png)"
  then show "m = 0" using missing_image_scores_zero(1) [OF assms] by blast
next
  fix desktop_ref desktop_site
  assume a: "snd (download_image_as_bytes (http_get w True) mobile_link) = Inr None \<and>
          snd (capture_screenshot_as_bytes (chrome w) website_url True) = Inr (Some png)"
    and b: "snd (download_image_as_bytes (http_get w False) desktop_link) = Inr desktop_ref \<and>
               snd (capture_screenshot_as_bytes (chrome w) website_url False) = Inr desktop_site \<and>
               makedirs w ''website_screenshots'' = None \<and>
               snd (save_screenshot w ''website_screenshots''
                      (''mobile_'' @ str_nat index @ ''.png'') (Some png)) = Inr () \<and>
               snd (save_screenshot w ''website_screenshots''
                      (''desktop_'' @ str_nat index @ ''.png'') desktop_site) = Inr ()"
  from a b have out: "snd (row_steps w index row) =
      (case snd (similarity w None (Some png)) of
         Inl e \<Rightarrow> Inl e
       | Inr m' \<Rightarrow>
           (case snd (similarity w desktop_ref desktop_site) of
              Inl e \<Rightarrow> Inl e
            | Inr d' \<Rightarrow> Inr (m', d')))"
    by (simp add: row_steps_outcome [OF assms(1-4), of None desktop_ref index])
  with assms(5)
  show "d = (case desktop_ref of
               None \<Rightarrow> 0
             | Some r \<Rightarrow>
                 (case desktop_site of
                    None \<Rightarrow> 0
                  | Some s \<Rightarrow>
                      (case compare_images_bytes (cv w) r s of
                         Inr x \<Rightarrow> x
                       | Inl e \<Rightarrow> 0)))"
    by (auto simp: process_row_outcome snd_similarity split: sum.splits option.splits)
next
  assume "snd (download_image_as_bytes (http_get w False) desktop_link) = Inr None \<and>
          snd (capture_screenshot_as_bytes (chrome w) website_url False) = Inr (Some png)"
  then show "d = 0" using missing_image_scores_zero(2) [OF assms] by blast
next
  fix mobile_ref mobile_site
  assume a: "snd (download_image_as_bytes (http_get w False) desktop_link) = Inr None \<and>
          snd (capture_screenshot_as_bytes (chrome w) website_url False) = Inr (Some png)"
    and b: "snd (download_image_as_bytes (http_get w True) mobile_link) = Inr mobile_ref \<and>
               snd (capture_screenshot_as_bytes (chrome w) website_url True) = Inr mobile_site \<and>
               makedirs w ''website_screenshots'' = None \<and>
               snd (save_screenshot w ''website_screenshots''
                      (''mobile_'' @ str_nat index @ ''.png'') mobile_site) = Inr () \<and>
               snd (save_screenshot w ''website_screenshots''
                      (''desktop_'' @ str_nat index @ ''.png'') (Some png)) = Inr ()"
  from a b have out: "snd (row_steps w index row) =
      (case snd (similarity w mobile_ref mobile_site) of
         Inl e \<Rightarrow> Inl e
       | Inr m' \<Rightarrow>
           (case snd (similarity w None (Some png)) of
              Inl e \<Rightarrow> Inl e
            | Inr d' \<Rightarrow> Inr (m', d')))"
    by (simp add: row_steps_outcome [OF assms(1-4), of mobile_ref None index])
  with assms(5)
  show "m = (case mobile_ref of
               None \<Rightarrow> 0
             | Some r \<Rightarrow>
                 (case mobile_site of
                    None \<Rightarrow> 0
                  | Some s \<Rightarrow>
                      (case compare_images_bytes (cv w) r s of
                         Inr x \<Rightarrow> x
                       | Inl e \<Rightarrow> 0)))"
    by (auto simp: process_row_outcome snd_similarity split: sum.splits option.splits)
qed

theorem failed_fetch_zeroes_its_viewport_witness:
  "demo_row ''Mobile Response Link'' = Some ''https://example.com/m.png'' \<and>
   demo_row ''Desktop Response Link'' = Some ''https://example.com/d.png'' \<and>
   demo_row ''Website URL'' = Some ''example.com'' \<and>
   validate_url (urlparse_scheme demo_world_fetch_fails) ''example.com'' = Inr ''https://example.com'' \<and>
   snd (download_image_as_bytes (http_get demo_world_fetch_fails True) ''https://example.com/m.png'') = Inr None \<and>
   snd (capture_screenshot_as_bytes (chrome demo_world_fetch_fails) ''https://example.com'' True) =
     Inr (Some [137, 80, 78, 71]) \<and>
   snd (download_image_as_bytes (http_get demo_world_fetch_fails False) ''https://example.com/d.png'') =
     Inr (Some [137, 80, 78]) \<and>
   snd (capture_screenshot_as_bytes (chrome demo_world_fetch_fails) ''https://example.com'' False) =
     Inr (Some [137, 80, 78, 71]) \<and>
   makedirs demo_world_fetch_fails ''website_screenshots'' = None \<and>
   snd (save_screenshot demo_world_fetch_fails ''website_screenshots''
          (''mobile_'' @ str_nat 0 @ ''.png'') (Some [137, 80, 78, 71])) = Inr () \<and>
   snd (save_screenshot demo_world_fetch_fails ''website_screenshots''
          (''desktop_'' @ str_nat 0 @ ''.png'') (Some [137, 80, 78, 71])) = Inr () \<and>
   compare_images_bytes (cv demo_world_fetch_fails) [137, 80, 78] [137, 80, 78, 71] = Inr (175 / 2) \<and>
   (\<exists>m d. snd (process_row demo_world_fetch_fails 0 demo_row) = Inr (m, d) \<and> m = 0 \<and> d = 175 / 2)"
proof -
  have f1: "demo_row ''Mobile Response Link'' = Some ''https://example.com/m.png''"
    and f2: "demo_row ''Desktop Response Link'' = Some ''https://example.com/d.png''"
    and f3: "demo_row ''Website URL'' = Some ''example.com''"
    by (simp_all add: demo_row_def)
  have u: "validate_url (urlparse_scheme demo_world_fetch_fails) ''example.com'' = Inr ''https://example.com''"
    by code_simp
  have a: "snd (download_image_as_bytes (http_get demo_world_fetch_fails True) ''https://example.com/m.png'') = Inr None"
    by code_simp
  have b: "snd (capture_screenshot_as_bytes (chrome demo_world_fetch_fails) ''https://example.com'' True) =
     Inr (Some [137, 80, 78, 71])"
    by code_simp
  have c: "snd (download_image_as_bytes (http_get demo_world_fetch_fails False) ''https://example.com/d.png'') =
     Inr (Some [137, 80, 78])"
    by code_simp
  have d: "snd (capture_screenshot_as_bytes (chrome demo_world_fetch_fails) ''https://example.com'' False) =
     Inr (Some [137, 80, 78, 71])"
    by code_simp
  have mk: "makedirs demo_world_fetch_fails ''website_screenshots'' = None"
    by (simp add: demo_world_fetch_fails_def demo_world_def)
  have s1: "snd (save_screenshot demo_world_fetch_fails ''website_screenshots''
          (''mobile_'' @ str_nat 0 @ ''.png'') (Some [137, 80, 78, 71])) = Inr ()"
    by code_simp
  have s2: "snd (save_screenshot demo_world_fetch_fails ''website_screenshots''
          (''desktop_'' @ str_nat 0 @ ''.png'') (Some [137, 80, 78, 71])) = Inr ()"
    by code_simp
  have sc: "compare_images_bytes (cv demo_world_fetch_fails) [137, 80, 78] [137, 80, 78, 71] = Inr (175 / 2)"
    by code_simp
  obtain m' d' where pr: "snd (process_row demo_world_fetch_fails 0 demo_row) = Inr (m', d')"
    using process_row_returns [of demo_world_fetch_fails 0 demo_row] by auto
  note t = failed_fetch_zeroes_its_viewport [OF f1 f2 f3 u pr, of "[137, 80, 78, 71]"]
  from t a b have m0: "m' = 0" by blast
  from t a b c d mk s1 s2
  have "d' = (case Some [137, 80, 78] of
                None \<Rightarrow> 0
              | Some r \<Rightarrow>
                  (case Some [137, 80, 78, 71] of
                     None \<Rightarrow> 0
                   | Some s \<Rightarrow>
                       (case compare_images_bytes (cv demo_world_fetch_fails) r s of
                          Inr x \<Rightarrow> x
                        | Inl e \<Rightarrow> 0)))"
    by blast
  then have d0: "d' = 175 / 2" by (simp add: sc)
  from f1 f2 f3 u a b c d mk s1 s2 sc pr m0 d0 show ?thesis by blast
qed

section \<open>Render failures\<close>

lemma capture_error_after_launch:
  assumes "launch (browse url mobile_view) = None" and "quit (browse url mobile_view) = None"
    and "navigate (browse url mobile_view) = Some e \<or>
         navigate (browse url mobile_view) = None \<and> wait_body (browse url mobile_view) = Some e \<or>
         navigate (browse url mobile_view) = None \<and> wait_body (browse url mobile_view) = None \<and>
           screenshot (browse url mobile_view) = Inl e"
  shows "capture_screenshot_as_bytes browse url mobile_view =
           ([ChromeStarted mobile_view, ErrorCapturing e, DriverQuit mobile_view], Inr None)"
  using assms by (auto simp: capture_cases Let_def)

lemma launch_error_zeroes_row:
  assumes "row ''Mobile Response Link'' = Some mobile_link"
    and "row ''Desktop Response Link'' = Some desktop_link"
    and "row ''Website URL'' = Some url"
    and "validate_url (urlparse_scheme w) url = Inr website_url"
    and "launch (chrome w website_url mobile_view) = Some e"
  shows "capture_screenshot_as_bytes (chrome w) website_url mobile_view = ([], Inl e)"
    and "snd (process_row w index row) = Inr (0, 0)"
proof -
  show esc: "capture_screenshot_as_bytes (chrome w) website_url mobile_view = ([], Inl e)"
    using assms(5) by (simp add: capture_cases)
  obtain t1 mobile_ref where dl1: "download_image_as_bytes (http_get w True) mobile_link = (t1, Inr mobile_ref)"
    using download_returns by blast
  obtain t2 desktop_ref where dl2: "download_image_as_bytes (http_get w False) desktop_link = (t2, Inr desktop_ref)"
    using download_returns by blast
  note out = row_steps_outcome [OF assms(1-4), of mobile_ref desktop_ref index, simplified dl1 dl2, simplified]
  have "\<exists>e'. snd (row_steps w index row) = Inl e'"
    using esc out by (cases mobile_view) (auto split: sum.splits)
  then show "snd (process_row w index row) = Inr (0, 0)"
    by (auto simp: process_row_outcome)
qed

text \<open>
  C4 (amended). In a row whose three columns are present and whose URL parses: an error of
  navigation, of the wait for the page or of the screenshot, raised after the browser
  started, is returned by the capture as \<open>None\<close> when \<^verbatim>\<open>driver.quit()\<close> then returns.
  A capture that returned \<open>None\<close> makes its own viewport's similarity \<open>0\<close>, and the other
  viewport's similarity is the scorer's result on its reference and screenshot when both
  were obtained and no exception left the steps of the row. An error of the browser launch
  is not returned as a value: it leaves the capture as an exception, and the row's result
  is \<open>(0, 0)\<close>.
\<close>

theorem render_error_after_launch_is_failure_value:
  assumes "row ''Mobile Response Link'' = Some mobile_link"
    and "row ''Desktop Response Link'' = Some desktop_link"
    and "row ''Website URL'' = Some url"
    and "validate_url (urlparse_scheme w) url = Inr website_url"
    and "snd (process_row w index row) = Inr (m, d)"
  shows "(\<forall>mobile_view e.
            launch (chrome w website_url mobile_view) = None \<and>
            quit (chrome w website_url mobile_view) = None \<and>
            (navigate (chrome w website_url mobile_view) = Some e \<or>
             navigate (chrome w website_url mobile_view) = None \<and>
               wait_body (chrome w website_url mobile_view) = Some e \<or>
             navigate (chrome w website_url mobile_view) = None \<and>
               wait_body (chrome w website_url mobile_view) = None \<and>
               screenshot (chrome w website_url mobile_view) = Inl e) \<longrightarrow>
            capture_screenshot_as_bytes (chrome w) website_url mobile_view =
              ([ChromeStarted mobile_view, ErrorCapturing e, DriverQuit mobile_view], Inr None)) \<and>
         (snd (capture_screenshot_as_bytes (chrome w) website_url True) = Inr None \<longrightarrow>
            m = 0 \<and>
            (\<forall>x r s. snd (row_steps w index row) = Inr x \<and>
                snd (download_image_as_bytes (http_get w False) desktop_link) = Inr (Some r) \<and>
                snd (capture_screenshot_as_bytes (chrome w) website_url False) = Inr (Some s) \<longrightarrow>
                compare_images_bytes (cv w) r s = Inr d)) \<and>
         (snd (capture_screenshot_as_bytes (chrome w) website_url False) = Inr None \<longrightarrow>
            d = 0 \<and>
            (\<forall>x r s. snd (row_steps w index row) = Inr x \<and>
                snd (download_image_as_bytes (http_get w True) mobile_link) = Inr (Some r) \<and>
                snd (capture_screenshot_as_bytes (chrome w) website_url True) = Inr (Some s) \<longrightarrow>
                compare_images_bytes (cv w) r s = Inr m)) \<and>
         (\<forall>mobile_view e.
            launch (chrome w website_url mobile_view) = Some e \<longrightarrow>
            capture_screenshot_as_bytes (chrome w) website_url mobile_view = ([], Inl e) \<and>
            m = 0 \<and> d = 0)"
proof (intro conjI impI allI)
  fix mobile_view e
  assume "launch (chrome w website_url mobile_view) = None \<and>
            quit (chrome w website_url mobile_view) = None \<and>
            (navigate (chrome w website_url mobile_view) = Some e \<or>
             navigate (chrome w website_url mobile_view) = None \<and>
               wait_body (chrome w website_url mobile_view) = Some e \<or>
             navigate (chrome w website_url mobile_view) = None \<and>
               wait_body (chrome w website_url mobile_view) = None \<and>
               screenshot (chrome w website_url mobile_view) = Inl e)"
  then show "capture_screenshot_as_bytes (chrome w) website_url mobile_view =
              ([ChromeStarted mobile_view, ErrorCapturing e, DriverQuit mobile_view], Inr None)"
    using capture_error_after_launch [of "chrome w" website_url mobile_view e] by blast
next
  assume "snd (capture_screenshot_as_bytes (chrome w) website_url True) = Inr None"
  then show "m = 0" using missing_image_scores_zero(1) [OF assms] by blast
next
  fix x r s
  assume "snd (row_steps w index row) = Inr x \<and>
          snd (download_image_as_bytes (http_get w False) desktop_link) = Inr (Some r) \<and>
          snd (capture_screenshot_as_bytes (chrome w) website_url False) = Inr (Some s)"
  then show "compare_images_bytes (cv w) r s = Inr d"
    using both_images_scored(2) [OF assms] by blast
next
  assume "snd (capture_screenshot_as_bytes (chrome w) website_url False) = Inr None"
  then show "d = 0" using missing_image_scores_zero(2) [OF assms] by blast
next
  fix x r s
  assume "snd (row_steps w index row) = Inr x \<and>
          snd (download_image_as_bytes (http_get w True) mobile_link) = Inr (Some r) \<and>
          snd (capture_screenshot_as_bytes (chrome w) website_url True) = Inr (Some s)"
  then show "compare_images_bytes (cv w) r s = Inr m"
    using both_images_scored(1) [OF assms] by blast
next
  fix mobile_view e
  assume l: "launch (chrome w website_url mobile_view) = Some e"
  show "capture_screenshot_as_bytes (chrome w) website_url mobile_view = ([], Inl e)"
    by (rule launch_error_zeroes_row(1) [OF assms(1-4) l])
  from launch_error_zeroes_row(2) [OF assms(1-4) l, of index] assms(5)
  show "m = 0" and "d = 0" by simp_all
qed


theorem render_error_after_launch_is_failure_value_witness:
  "demo_row ''Mobile Response Link'' = Some ''https://example.com/m.png'' \<and>
   demo_row ''Desktop Response Link'' = Some ''https://example.com/d.png'' \<and>
   demo_row ''Website URL'' = Some ''example.com'' \<and>
   validate_url (urlparse_scheme demo_world_timeout) ''example.com'' = Inr ''https://example.com'' \<and>
   launch (chrome demo_world_timeout ''https://example.com'' True) = None \<and>
   quit (chrome demo_world_timeout ''https://example.com'' True) = None \<and>
   navigate (chrome demo_world_timeout ''https://example.com'' True) = None \<and>
   wait_body (chrome demo_world_timeout ''https://example.com'' True) = Some TimeoutException \<and>
   capture_screenshot_as_bytes (chrome demo_world_timeout) ''https://example.com'' True =
     ([ChromeStarted True, ErrorCapturing TimeoutException, DriverQuit True], Inr None) \<and>
   snd (download_image_as_bytes (http_get demo_world_timeout False) ''https://example.com/d.png'') =
     Inr (Some [137, 80, 78]) \<and>
   snd (capture_screenshot_as_bytes (chrome demo_world_timeout) ''https://example.com'' False) =
     Inr (Some [137, 80, 78, 71]) \<and>
   snd (row_steps demo_world_timeout 0 demo_row) = Inr (0, 175 / 2) \<and>
   snd (process_row demo_world_timeout 0 demo_row) = Inr (0, 175 / 2) \<and>
   compare_images_bytes (cv demo_world_timeout) [137, 80, 78] [137, 80, 78, 71] = Inr (175 / 2) \<and>
   validate_url (urlparse_scheme demo_world_launch_fails) ''example.com'' = Inr ''https://example.com'' \<and>
   launch (chrome demo_world_launch_fails ''https://example.com'' True) = Some WebDriverException \<and>
   capture_screenshot_as_bytes (chrome demo_world_launch_fails) ''https://example.com'' True =
     ([], Inl WebDriverException) \<and>
   snd (process_row demo_world_launch_fails 0 demo_row) = Inr (0, 0)"
proof -
  have f1: "demo_row ''Mobile Response Link'' = Some ''https://example.com/m.png''"
    and f2: "demo_row ''Desktop Response Link'' = Some ''https://example.com/d.png''"
    and f3: "demo_row ''Website URL'' = Some ''example.com''"
    by (simp_all add: demo_row_def)
  have u: "validate_url (urlparse_scheme demo_world_timeout) ''example.com'' = Inr ''https://example.com''"
    by code_simp
  have b: "launch (chrome demo_world_timeout ''https://example.com'' True) = None"
    "quit (chrome demo_world_timeout ''https://example.com'' True) = None"
    "navigate (chrome demo_world_timeout ''https://example.com'' True) = None"
    "wait_body (chrome demo_world_timeout ''https://example.com'' True) = Some TimeoutException"
    by (simp_all add: demo_world_timeout_def demo_world_def demo_browser_def)
  have c: "snd (download_image_as_bytes (http_get demo_world_timeout False) ''https://example.com/d.png'') =
     Inr (Some [137, 80, 78])"
    by code_simp
  have d: "snd (capture_screenshot_as_bytes (chrome demo_world_timeout) ''https://example.com'' False) =
     Inr (Some [137, 80, 78, 71])"
    by code_simp
  have rs: "snd (row_steps demo_world_timeout 0 demo_row) = Inr (0, 175 / 2)"
    by code_simp
  have pr: "snd (process_row demo_world_timeout 0 demo_row) = Inr (0, 175 / 2)"
    by code_simp
  note t = render_error_after_launch_is_failure_value [OF f1 f2 f3 u pr]
  from t b have cap: "capture_screenshot_as_bytes (chrome demo_world_timeout) ''https://example.com'' True =
     ([ChromeStarted True, ErrorCapturing TimeoutException, DriverQuit True], Inr None)"
    by blast
  from t c d rs cap
  have sc: "compare_images_bytes (cv demo_world_timeout) [137, 80, 78] [137, 80, 78, 71] = Inr (175 / 2)"
    by (metis snd_conv)
  have u': "validate_url (urlparse_scheme demo_world_launch_fails) ''example.com'' = Inr ''https://example.com''"
    by code_simp
  have l: "launch (chrome demo_world_launch_fails ''https://example.com'' True) = Some WebDriverException"
    by (simp add: demo_world_launch_fails_def demo_world_def demo_browser_def)
  obtain m' d' where pr': "snd (process_row demo_world_launch_fails 0 demo_row) = Inr (m', d')"
    using process_row_returns [of demo_world_launch_fails 0 demo_row] by auto
  from render_error_after_launch_is_failure_value [OF f1 f2 f3 u' pr'] l
  have esc: "capture_screenshot_as_bytes (chrome demo_world_launch_fails) ''https://example.com'' True =
     ([], Inl WebDriverException)" and z: "m' = 0" "d' = 0"
    by blast+
  from pr' z have pr0: "snd (process_row demo_world_launch_fails 0 demo_row) = Inr (0, 0)" by simp
  from f1 f2 f3 u b cap c d rs pr sc u' l esc pr0 show ?thesis by blast
qed

text \<open>
  C4 as stated fails: the launch of the mobile browser raises; the capture raises instead
  of returning \<open>None\<close>, and the desktop viewport, whose reference and screenshot were both
  obtained and score 87.5, ends with similarity \<open>0\<close>.
\<close>

theorem launch_error_escapes_capture_counterexample:
  "demo_row ''Mobile Response Link'' = Some ''https://example.com/m.png'' \<and>
   demo_row ''Desktop Response Link'' = Some ''https://example.com/d.png'' \<and>
   demo_row ''Website URL'' = Some ''example.com'' \<and>
   validate_url (urlparse_scheme demo_world_launch_fails) ''example.com'' = Inr ''https://example.com'' \<and>
   launch (chrome demo_world_launch_fails ''https://example.com'' True) = Some WebDriverException \<and>
   snd (capture_screenshot_as_bytes (chrome demo_world_launch_fails) ''https://example.com'' True) =
     Inl WebDriverException \<and>
   snd (download_image_as_bytes (http_get demo_world_launch_fails False) ''https://example.com/d.png'') =
     Inr (Some [137, 80, 78]) \<and>
   snd (capture_screenshot_as_bytes (chrome demo_world_launch_fails) ''https://example.com'' False) =
     Inr (Some [137, 80, 78, 71]) \<and>
   compare_images_bytes (cv demo_world_launch_fails) [137, 80, 78] [137, 80, 78, 71] = Inr (175 / 2) \<and>
   snd (process_row demo_world_launch_fails 0 demo_row) = Inr (0, 0) \<and>
   (175 / 2 :: real) \<noteq> 0"
proof -
  have f: "demo_row ''Mobile Response Link'' = Some ''https://example.com/m.png'' \<and>
     demo_row ''Desktop Response Link'' = Some ''https://example.com/d.png'' \<and>
     demo_row ''Website URL'' = Some ''example.com''"
    by (simp add: demo_row_def)
  have u: "validate_url (urlparse_scheme demo_world_launch_fails) ''example.com'' = Inr ''https://example.com''"
    by code_simp
  have l: "launch (chrome demo_world_launch_fails ''https://example.com'' True) = Some WebDriverException"
    by (simp add: demo_world_launch_fails_def demo_world_def demo_browser_def)
  have a: "snd (capture_screenshot_as_bytes (chrome demo_world_launch_fails) ''https://example.com'' True) =
     Inl WebDriverException"
    by code_simp
  have c: "snd (download_image_as_bytes (http_get demo_world_launch_fails False) ''https://example.com/d.png'') =
     Inr (Some [137, 80, 78])"
    by code_simp
  have d: "snd (capture_screenshot_as_bytes (chrome demo_world_launch_fails) ''https://example.com'' False) =
     Inr (Some [137, 80, 78, 71])"
    by code_simp
  have sc: "compare_images_bytes (cv demo_world_launch_fails) [137, 80, 78] [137, 80, 78, 71] = Inr (175 / 2)"
    by code_simp
  have pr: "snd (process_row demo_world_launch_fails 0 demo_row) = Inr (0, 0)"
    by code_simp
  from f u l a c d sc pr show ?thesis by simp
qed

section \<open>Persisting the screenshots\<close>

text \<open>
  C5 (amended). In a row whose three columns are present, whose URL parses, whose two
  captures returned and whose directory was created: when writing a captured screenshot
  raises (the mobile one, or the desktop one after the mobile one was dealt with), the
  exception is caught at the row boundary, printed there with the row's index as the last
  event of the row, and the row's result is \<open>(0, 0)\<close>.
\<close>

theorem persistence_failure_zeroes_row:
  assumes "row ''Mobile Response Link'' = Some mobile_link"
    and "row ''Desktop Response Link'' = Some desktop_link"
    and "row ''Website URL'' = Some url"
    and "validate_url (urlparse_scheme w) url = Inr website_url"
    and "snd (capture_screenshot_as_bytes (chrome w) website_url True) = Inr mobile_site"
    and "snd (capture_screenshot_as_bytes (chrome w) website_url False) = Inr desktop_site"
    and "makedirs w ''website_screenshots'' = None"
  shows "(mobile_site = Some png \<and>
          write_file w ''website_screenshots'' (''mobile_'' @ str_nat index @ ''.png'') png = Some e \<longrightarrow>
            process_row w index row =
              (fst (row_steps w index row) @ [ErrorProcessingRow index e], Inr (0, 0))) \<and>
         (snd (save_screenshot w ''website_screenshots''
                 (''mobile_'' @ str_nat index @ ''.png'') mobile_site) = Inr () \<and>
          desktop_site = Some png \<and>
          write_file w ''website_screenshots'' (''desktop_'' @ str_nat index @ ''.png'') png = Some e \<longrightarrow>
            process_row w index row =
              (fst (row_steps w index row) @ [ErrorProcessingRow index e], Inr (0, 0)))"
proof -
  obtain t1 mobile_ref where dl1: "download_image_as_bytes (http_get w True) mobile_link = (t1, Inr mobile_ref)"
    using download_returns by blast
  obtain t2 desktop_ref where dl2: "download_image_as_bytes (http_get w False) desktop_link = (t2, Inr desktop_ref)"
    using download_returns by blast
  note out = row_steps_outcome [OF assms(1-4), of mobile_ref desktop_ref index, simplified dl1 dl2, simplified]
  have caught: "process_row w index row =
      (fst (row_steps w index row) @ [ErrorProcessingRow index e], Inr (0, 0))"
    if "snd (row_steps w index row) = Inl e"
    using that by (cases "row_steps w index row") (simp add: process_row_cases)
  show ?thesis
  proof (intro conjI impI)
    assume "mobile_site = Some png \<and>
          write_file w ''website_screenshots'' (''mobile_'' @ str_nat index @ ''.png'') png = Some e"
    then have "snd (row_steps w index row) = Inl e"
      using out assms(5-7) by (simp add: snd_save_screenshot)
    then show "process_row w index row =
              (fst (row_steps w index row) @ [ErrorProcessingRow index e], Inr (0, 0))"
      by (rule caught)
  next
    assume "snd (save_screenshot w ''website_screenshots''
                 (''mobile_'' @ str_nat index @ ''.png'') mobile_site) = Inr () \<and>
          desktop_site = Some png \<and>
          write_file w ''website_screenshots'' (''desktop_'' @ str_nat index @ ''.png'') png = Some e"
    then have "snd (row_steps w index row) = Inl e"
      using out assms(5-7) by (simp add: snd_save_screenshot)
    then show "process_row w index row =
              (fst (row_steps w index row) @ [ErrorProcessingRow index e], Inr (0, 0))"
      by (rule caught)
  qed
qed


theorem persistence_failure_zeroes_row_witness:
  "demo_row ''Mobile Response Link'' = Some ''https://example.com/m.png'' \<and>
   demo_row ''Desktop Response Link'' = Some ''https://example.com/d.png'' \<and>
   demo_row ''Website URL'' = Some ''example.com'' \<and>
   validate_url (urlparse_scheme demo_world_write_fails) ''example.com'' = Inr ''https://example.com'' \<and>
   snd (capture_screenshot_as_bytes (chrome demo_world_write_fails) ''https://example.com'' True) =
     Inr (Some [137, 80, 78, 71]) \<and>
   snd (capture_screenshot_as_bytes (chrome demo_world_write_fails) ''https://example.com'' False) =
     Inr (Some [137, 80, 78, 71]) \<and>
   makedirs demo_world_write_fails ''website_screenshots'' = None \<and>
   write_file demo_world_write_fails ''website_screenshots'' (''mobile_'' @ str_nat 0 @ ''.png'')
     [137, 80, 78, 71] = Some OSError \<and>
   fst (row_steps demo_world_write_fails 0 demo_row) =
     [HttpGet ''https://example.com/m.png'', HttpGet ''https://example.com/d.png'',
      ChromeStarted True, DriverQuit True, ChromeStarted False, DriverQuit False,
      Makedirs ''website_screenshots''] \<and>
   process_row demo_world_write_fails 0 demo_row =
     ([HttpGet ''https://example.com/m.png'', HttpGet ''https://example.com/d.png'',
       ChromeStarted True, DriverQuit True, ChromeStarted False, DriverQuit False,
       Makedirs ''website_screenshots'', ErrorProcessingRow 0 OSError], Inr (0, 0))"
proof -
  have f1: "demo_row ''Mobile Response Link'' = Some ''https://example.com/m.png''"
    and f2: "demo_row ''Desktop Response Link'' = Some ''https://example.com/d.png''"
    and f3: "demo_row ''Website URL'' = Some ''example.com''"
    by (simp_all add: demo_row_def)
  have u: "validate_url (urlparse_scheme demo_world_write_fails) ''example.com'' = Inr ''https://example.com''"
    by code_simp
  have c1: "snd (capture_screenshot_as_bytes (chrome demo_world_write_fails) ''https://example.com'' True) =
     Inr (Some [137, 80, 78, 71])"
    by code_simp
  have c2: "snd (capture_screenshot_as_bytes (chrome demo_world_write_fails) ''https://example.com'' False) =
     Inr (Some [137, 80, 78, 71])"
    by code_simp
  have mk: "makedirs demo_world_write_fails ''website_screenshots'' = None"
    by (simp add: demo_world_write_fails_def demo_world_def)
  have wf: "write_file demo_world_write_fails ''website_screenshots'' (''mobile_'' @ str_nat 0 @ ''.png'')
     [137, 80, 78, 71] = Some OSError"
    by code_simp
  have tr: "fst (row_steps demo_world_write_fails 0 demo_row) =
     [HttpGet ''https://example.com/m.png'', HttpGet ''https://example.com/d.png'',
      ChromeStarted True, DriverQuit True, ChromeStarted False, DriverQuit False,
      Makedirs ''website_screenshots'']"
    by code_simp
  from persistence_failure_zeroes_row [OF f1 f2 f3 u c1 c2 mk, of "[137, 80, 78, 71]" 0 OSError] wf tr
  have "process_row demo_world_write_fails 0 demo_row =
     ([HttpGet ''https://example.com/m.png'', HttpGet ''https://example.com/d.png'',
       ChromeStarted True, DriverQuit True, ChromeStarted False, DriverQuit False,
       Makedirs ''website_screenshots'', ErrorProcessingRow 0 OSError], Inr (0, 0))"
    by simp
  with f1 f2 f3 u c1 c2 mk wf tr show ?thesis by blast
qed

text \<open>
  C5 as stated fails: with the mobile screenshot captured and its write raising, the row's
  result is \<open>(0, 0)\<close>, while the same world with the write succeeding gives
  \<open>(87.5, 87.5)\<close>, the scores of the bytes held in memory.
\<close>

theorem failed_write_changes_scores_counterexample:
  "snd (capture_screenshot_as_bytes (chrome demo_world_write_fails) ''https://example.com'' True) =
     Inr (Some [137, 80, 78, 71]) \<and>
   write_file demo_world_write_fails ''website_screenshots'' ''mobile_0.png'' [137, 80, 78, 71] =
     Some OSError \<and>
   snd (download_image_as_bytes (http_get demo_world_write_fails True) ''https://example.com/m.png'') =
     Inr (Some [137, 80, 78]) \<and>
   compare_images_bytes (cv demo_world_write_fails) [137, 80, 78] [137, 80, 78, 71] = Inr (175 / 2) \<and>
   snd (process_row demo_world_write_fails 0 demo_row) = Inr (0, 0) \<and>
   demo_world_write_fails \<lparr> write_file := (\<lambda>dir name data. None) \<rparr> = demo_world \<and>
   snd (process_row demo_world 0 demo_row) = Inr (175 / 2, 175 / 2) \<and>
   (175 / 2 :: real) \<noteq> 0"
proof -
  have a: "snd (capture_screenshot_as_bytes (chrome demo_world_write_fails) ''https://example.com'' True) =
     Inr (Some [137, 80, 78, 71])"
    by code_simp
  have b: "write_file demo_world_write_fails ''website_screenshots'' ''mobile_0.png'' [137, 80, 78, 71] =
     Some OSError"
    by (simp add: demo_world_write_fails_def)
  have c: "snd (download_image_as_bytes (http_get demo_world_write_fails True) ''https://example.com/m.png'') =
     Inr (Some [137, 80, 78])"
    by code_simp
  have d: "compare_images_bytes (cv demo_world_write_fails) [137, 80, 78] [137, 80, 78, 71] = Inr (175 / 2)"
    by code_simp
  have e: "snd (process_row demo_world_write_fails 0 demo_row) = Inr (0, 0)"
    by code_simp
  have f: "demo_world_write_fails \<lparr> write_file := (\<lambda>dir name data. None) \<rparr> = demo_world"
    by (simp add: demo_world_write_fails_def demo_world_def)
  have g: "snd (process_row demo_world 0 demo_row) = Inr (175 / 2, 175 / 2)"
    by code_simp
  from a b c d e f g show ?thesis by simp
qed

end
